theory Spec2Isabelle
  imports Complex_Main "HOL-Library.Sublist"
begin

section \<open>Jet Shooter: the simulation core of \<^verbatim>\<open>jet_shooter.py\<close>\<close>

text \<open>
  The embedding follows the source file function by function. Python floats are idealised
  as \<^typ>\<open>real\<close> (positions, velocities, speeds), Python integers are \<^typ>\<open>int\<close>.
  A pygame sprite group is the list of its members in insertion order, which is the order
  in which the group is iterated; \<^verbatim>\<open>kill()\<close> removes the sprite from the list.
  Sums of floats are exact here and rounded in the code: where the exact sum of repeated
  steps of 0.9 or 1.2 is an integer, the code's \<^verbatim>\<open>int()\<close> can give one pixel less. The
  coordinates of a rect are unbounded integers here and 32-bit in pygame, a bound that no
  play reaches.
  Exceptions are values of the type \<open>error\<close>. Drawing, sound and asset loading do not
  touch the simulation state and are left out; both branches of the asset lookup in
  \<^verbatim>\<open>Projectile.__init__\<close> give the same radius, colour and image size.
\<close>

subsection \<open>Configuration\<close>

definition WIDTH :: int where "WIDTH = 900"
definition HEIGHT :: int where "HEIGHT = 600"

type_synonym color = "int \<times> int \<times> int"

definition NEON_PINK :: color where "NEON_PINK = (255, 28, 179)"
definition NEON_YELLOW :: color where "NEON_YELLOW = (255, 210, 20)"

subsection \<open>pygame.math.Vector2\<close>

type_synonym vector2 = "real \<times> real"

datatype error = ValueError

definition vec_add :: "vector2 \<Rightarrow> vector2 \<Rightarrow> vector2" where
  "vec_add a b = (fst a + fst b, snd a + snd b)"

definition vec_sub :: "vector2 \<Rightarrow> vector2 \<Rightarrow> vector2" where
  "vec_sub a b = (fst a - fst b, snd a - snd b)"

definition vec_scale :: "vector2 \<Rightarrow> real \<Rightarrow> vector2" where
  "vec_scale a k = (fst a * k, snd a * k)"

definition vec_length :: "vector2 \<Rightarrow> real" where
  "vec_length a = sqrt (fst a * fst a + snd a * snd a)"

text \<open>\<^verbatim>\<open>Vector2.normalize()\<close> raises ValueError on a vector of length zero.\<close>

definition normalize_vec :: "vector2 \<Rightarrow> error + vector2" where
  "normalize_vec a =
     (if vec_length a = 0 then Inl ValueError
      else Inr (fst a / vec_length a, snd a / vec_length a))"

text \<open>\<^verbatim>\<open>Vector2(pos)\<close> of a tuple of Python ints.\<close>

definition Vector2 :: "int \<times> int \<Rightarrow> vector2" where
  "Vector2 p = (real_of_int (fst p), real_of_int (snd p))"

text \<open>Python's \<^verbatim>\<open>int(x)\<close> on a float truncates toward zero.\<close>

definition py_int :: "real \<Rightarrow> int" where
  "py_int r = (if 0 \<le> r then \<lfloor>r\<rfloor> else \<lceil>r\<rceil>)"

subsection \<open>pygame.Rect\<close>

record rect =
  rect_x :: int
  rect_y :: int
  rect_w :: int
  rect_h :: int

definition rect_left :: "rect \<Rightarrow> int" where "rect_left r = rect_x r"
definition rect_top :: "rect \<Rightarrow> int" where "rect_top r = rect_y r"
definition rect_right :: "rect \<Rightarrow> int" where "rect_right r = rect_x r + rect_w r"
definition rect_bottom :: "rect \<Rightarrow> int" where "rect_bottom r = rect_y r + rect_h r"

definition rect_center :: "rect \<Rightarrow> int \<times> int" where
  "rect_center r = (rect_x r + rect_w r div 2, rect_y r + rect_h r div 2)"

definition set_center :: "rect \<Rightarrow> int \<times> int \<Rightarrow> rect" where
  "set_center r c = r\<lparr>rect_x := fst c - rect_w r div 2, rect_y := snd c - rect_h r div 2\<rparr>"

text \<open>\<^verbatim>\<open>Surface((w, h)).get_rect(center=pos)\<close>.\<close>

definition get_rect :: "int \<Rightarrow> int \<Rightarrow> int \<times> int \<Rightarrow> rect" where
  "get_rect w h c = set_center \<lparr>rect_x = 0, rect_y = 0, rect_w = w, rect_h = h\<rparr> c"

text \<open>\<^verbatim>\<open>Rect.colliderect\<close>: strict overlap; a rectangle of zero size collides with nothing.\<close>

definition colliderect :: "rect \<Rightarrow> rect \<Rightarrow> bool" where
  "colliderect a b =
     (if rect_w a = 0 \<or> rect_h a = 0 \<or> rect_w b = 0 \<or> rect_h b = 0 then False
      else min (rect_x a) (rect_x a + rect_w a) < max (rect_x b) (rect_x b + rect_w b)
         \<and> min (rect_y a) (rect_y a + rect_h a) < max (rect_y b) (rect_y b + rect_h b)
         \<and> max (rect_x a) (rect_x a + rect_w a) > min (rect_x b) (rect_x b + rect_w b)
         \<and> max (rect_y a) (rect_y a + rect_h a) > min (rect_y b) (rect_y b + rect_h b))"

subsection \<open>Projectile\<close>

datatype element = Air | Water | Fire

record projectile =
  proj_pos :: vector2
  proj_vel :: vector2
  proj_element :: element
  proj_radius :: int
  proj_color :: color
  proj_rect :: rect

definition element_radius :: "element \<Rightarrow> int" where
  "element_radius e = (case e of Air \<Rightarrow> 16 | Water \<Rightarrow> 9 | Fire \<Rightarrow> 14)"

definition element_color :: "element \<Rightarrow> color" where
  "element_color e = (case e of Air \<Rightarrow> NEON_PINK | Water \<Rightarrow> (80, 160, 255) | Fire \<Rightarrow> NEON_YELLOW)"

definition Projectile_init :: "int \<times> int \<Rightarrow> vector2 \<Rightarrow> element \<Rightarrow> projectile" where
  "Projectile_init pos vel el =
     \<lparr>proj_pos = Vector2 pos, proj_vel = vel, proj_element = el,
      proj_radius = element_radius el, proj_color = element_color el,
      proj_rect = get_rect (element_radius el * 2) (element_radius el * 2) pos\<rparr>"

text \<open>\<^verbatim>\<open>Projectile.update\<close>: \<open>None\<close> when the sprite killed itself.\<close>

definition Projectile_update :: "projectile \<Rightarrow> projectile option" where
  "Projectile_update p =
     (let pos = vec_add (proj_pos p) (proj_vel p);
          r = set_center (proj_rect p) (py_int (fst pos), py_int (snd pos));
          p' = p\<lparr>proj_pos := pos, proj_rect := r\<rparr>
      in if rect_bottom r < 0 \<or> rect_top r > HEIGHT \<or> rect_left r > WIDTH \<or> rect_right r < 0
         then None else Some p')"

subsection \<open>Player\<close>

datatype key =
  K_LEFT | K_RIGHT | K_UP | K_DOWN | K_a | K_d | K_w | K_s
  | K_ESCAPE | K_SPACE | K_1 | K_2 | K_3 | K_q | K_e | K_other

record player =
  speed :: int
  p_rect :: rect
  lives :: int
  score :: int
  element :: element
  fire_cooldown :: int

definition Player_init :: "int \<times> int \<Rightarrow> player" where
  "Player_init pos =
     \<lparr>speed = 4, p_rect = get_rect 160 102 pos, lives = 3, score = 0,
      element = Air, fire_cooldown = 0\<rparr>"

definition Player_update :: "(key \<Rightarrow> bool) \<Rightarrow> player \<Rightarrow> player" where
  "Player_update keys p =
     (let dx0 = 0; dy0 = 0;
          dx1 = (if keys K_LEFT \<or> keys K_a then - speed p else dx0);
          dx = (if keys K_RIGHT \<or> keys K_d then speed p else dx1);
          dy1 = (if keys K_UP \<or> keys K_w then - speed p else dy0);
          dy = (if keys K_DOWN \<or> keys K_s then speed p else dy1);
          r = p_rect p;
          r1 = r\<lparr>rect_x := max 10 (min (WIDTH - 10 - rect_w r) (rect_x r + dx))\<rparr>;
          r2 = r1\<lparr>rect_y := max 60 (min (HEIGHT - 10 - rect_h r1) (rect_y r1 + dy))\<rparr>
      in p\<lparr>p_rect := r2,
           fire_cooldown := (if fire_cooldown p > 0 then fire_cooldown p - 1 else fire_cooldown p)\<rparr>)"

text \<open>\<^verbatim>\<open>Player.fire\<close>: the shots returned and the player afterwards.\<close>

definition Player_fire :: "player \<Rightarrow> projectile list \<times> player" where
  "Player_fire p =
     (if fire_cooldown p > 0 then ([], p)
      else
        let p' = p\<lparr>fire_cooldown := 14\<rparr>;
            c = rect_center (p_rect p);
            cx = fst c; cy = snd c
        in (case element p of
              Air \<Rightarrow> [Projectile_init (cx, cy - 10) (0, -8) Air]
            | Water \<Rightarrow>
                map (\<lambda>a. Projectile_init (cx, cy - 10) (sin a * 6, -6) Water) [-0.15, 0, 0.15]
            | Fire \<Rightarrow> [Projectile_init (cx, cy - 10) (0, -12) Fire],
            p'))"

subsection \<open>Bomb\<close>

record bomb =
  bomb_pos :: vector2
  bomb_vel :: vector2
  bomb_rect :: rect

definition Bomb_init :: "int \<times> int \<Rightarrow> int \<times> int \<Rightarrow> error + bomb" where
  "Bomb_init pos target =
     (case normalize_vec (vec_sub (Vector2 target) (Vector2 pos)) of
        Inl e \<Rightarrow> Inl e
      | Inr dir \<Rightarrow>
          Inr \<lparr>bomb_pos = Vector2 pos, bomb_vel = vec_scale dir 4.5,
               bomb_rect = get_rect 10 10 pos\<rparr>)"

definition Bomb_update :: "bomb \<Rightarrow> bomb option" where
  "Bomb_update b =
     (let pos = vec_add (bomb_pos b) (bomb_vel b);
          r = set_center (bomb_rect b) (py_int (fst pos), py_int (snd pos));
          b' = b\<lparr>bomb_pos := pos, bomb_rect := r\<rparr>
      in if rect_top r > HEIGHT \<or> rect_left r > WIDTH \<or> rect_right r < 0
         then None else Some b')"

subsection \<open>Explosion\<close>

record explosion =
  expl_pos :: "int \<times> int"
  expl_radius :: int
  expl_color :: color
  expl_lifetime :: int
  expl_rect :: rect

definition Explosion_init :: "int \<times> int \<Rightarrow> int \<Rightarrow> color \<Rightarrow> explosion" where
  "Explosion_init pos radius col =
     \<lparr>expl_pos = pos, expl_radius = radius, expl_color = col, expl_lifetime = 18,
      expl_rect = get_rect (radius * 2) (radius * 2) pos\<rparr>"

definition Explosion_update :: "explosion \<Rightarrow> explosion option" where
  "Explosion_update e =
     (let e' = e\<lparr>expl_lifetime := expl_lifetime e - 1\<rparr>
      in if expl_lifetime e' \<le> 0 then None else Some e')"

subsection \<open>Enemy\<close>

datatype kind = Beginner | Mid | Hard

record enemy =
  enemy_kind :: kind
  enemy_pos :: vector2
  enemy_rect :: rect
  enemy_hp :: int
  enemy_speed :: real
  enemy_color :: color
  enemy_direction :: vector2
  shoot_timer :: int

text \<open>
  \<^verbatim>\<open>Enemy.__init__\<close>; the two random draws of the constructor, \<^verbatim>\<open>random.uniform(-0.6, 0.6)\<close>
  and \<^verbatim>\<open>random.randint(40, 120)\<close>, are the arguments \<open>sway\<close> and \<open>timer\<close>.
\<close>

definition Enemy_init :: "int \<times> int \<Rightarrow> kind \<Rightarrow> real \<Rightarrow> int \<Rightarrow> error + enemy" where
  "Enemy_init pos k sway timer =
     (case normalize_vec (sway, 1) of
        Inl e \<Rightarrow> Inl e
      | Inr dir \<Rightarrow>
          Inr \<lparr>enemy_kind = k, enemy_pos = Vector2 pos, enemy_rect = get_rect 40 28 pos,
               enemy_hp = (case k of Beginner \<Rightarrow> 1 | Mid \<Rightarrow> 2 | Hard \<Rightarrow> 3),
               enemy_speed = (case k of Beginner \<Rightarrow> 1.0 | Mid \<Rightarrow> 1.2 | Hard \<Rightarrow> 0.9),
               enemy_color = (case k of Beginner \<Rightarrow> (90, 200, 255) | Mid \<Rightarrow> (255, 120, 90)
                                     | Hard \<Rightarrow> (255, 80, 200)),
               enemy_direction = dir, shoot_timer = timer\<rparr>)"

definition Enemy_update :: "enemy \<Rightarrow> enemy option" where
  "Enemy_update e =
     (let pos = vec_add (enemy_pos e) (vec_scale (enemy_direction e) (enemy_speed e));
          r = set_center (enemy_rect e) (py_int (fst pos), py_int (snd pos));
          e' = e\<lparr>enemy_pos := pos, enemy_rect := r\<rparr>
      in if rect_top r > HEIGHT + 20 then None else Some e')"

subsection \<open>The random source\<close>

text \<open>
  Every call of the \<^verbatim>\<open>random\<close> module made during one pass of the main loop is an input
  of that pass. \<open>choice_draw\<close> is the value of \<^verbatim>\<open>random()\<close> inside \<^verbatim>\<open>random.choices\<close>;
  \<open>shoot_reset_draw i\<close> is the \<^verbatim>\<open>randint(60, 140)\<close> drawn for the enemy at position \<open>i\<close>
  of the group.
\<close>

record draws =
  spawn_timer_draw :: int
  spawn_x_draw :: int
  choice_draw :: real
  sway_draw :: real
  shoot_timer_draw :: int
  shoot_reset_draw :: "nat \<Rightarrow> int"

definition valid_draws :: "draws \<Rightarrow> bool" where
  "valid_draws d \<longleftrightarrow>
     18 \<le> spawn_timer_draw d \<and> spawn_timer_draw d \<le> 42 \<and>
     40 \<le> spawn_x_draw d \<and> spawn_x_draw d \<le> WIDTH - 40 \<and>
     0 \<le> choice_draw d \<and> choice_draw d < 1 \<and>
     - 0.6 \<le> sway_draw d \<and> sway_draw d \<le> 0.6 \<and>
     40 \<le> shoot_timer_draw d \<and> shoot_timer_draw d \<le> 120 \<and>
     (\<forall>i. 60 \<le> shoot_reset_draw d i \<and> shoot_reset_draw d i \<le> 140)"

text \<open>\<^verbatim>\<open>itertools.accumulate\<close> and \<^verbatim>\<open>bisect.bisect_right\<close>, as \<^verbatim>\<open>random.choices\<close> uses them.\<close>

fun accumulate_from :: "real \<Rightarrow> real list \<Rightarrow> real list" where
  "accumulate_from acc [] = []"
| "accumulate_from acc (x # xs) = (acc + x) # accumulate_from (acc + x) xs"

definition accumulate :: "real list \<Rightarrow> real list" where
  "accumulate xs = accumulate_from 0 xs"

function bisect :: "real list \<Rightarrow> real \<Rightarrow> nat \<Rightarrow> nat \<Rightarrow> nat" where
  "bisect a x lo hi =
     (if lo < hi then
        (let mid = (lo + hi) div 2
         in if x < a ! mid then bisect a x lo mid else bisect a x (mid + 1) hi)
      else lo)"
  by pat_completeness auto
termination
  by (relation "measure (\<lambda>(a, x, lo, hi). hi - lo)") auto

declare bisect.simps [simp del]

text \<open>
  \<^verbatim>\<open>random.choices(population, weights=weights, k=1)[0]\<close> with \<open>u\<close> the value of \<^verbatim>\<open>random()\<close>.
  The program calls it with three kinds and three positive weights only, so the errors that
  the library raises for an empty population or a total weight that is not positive cannot
  occur and are not modelled.
\<close>

definition choices :: "'a list \<Rightarrow> real list \<Rightarrow> real \<Rightarrow> 'a" where
  "choices population weights u =
     (let cum_weights = accumulate weights;
          total = last cum_weights;
          hi = length population - 1
      in population ! bisect cum_weights (u * total) 0 hi)"

definition spawn_enemy :: "draws \<Rightarrow> error + enemy" where
  "spawn_enemy d =
     (let x = spawn_x_draw d;
          kinds = [Beginner, Mid, Hard];
          weights = [0.6, 0.3, 0.1];
          choice = choices kinds weights (choice_draw d)
      in Enemy_init (x, -20) choice (sway_draw d) (shoot_timer_draw d))"

subsection \<open>The state of \<^verbatim>\<open>main\<close>\<close>

text \<open>
  The group \<^verbatim>\<open>all_sprites\<close> holds the player and every enemy, projectile and bomb; it is
  used to update and to draw, and is represented by the other groups.
\<close>

record game =
  player :: player
  enemies :: "enemy list"
  projectiles :: "projectile list"
  bombs :: "bomb list"
  explosions :: "explosion list"
  spawn_timer :: int
  running :: bool

definition init_game :: game where
  "init_game =
     \<lparr>player = Player_init (WIDTH div 2, HEIGHT - 80), enemies = [], projectiles = [],
      bombs = [], explosions = [], spawn_timer = 0, running = True\<rparr>"

datatype event = QUIT | KEYDOWN key | OTHER_EVENT

record tick_input =
  in_keys :: "key \<Rightarrow> bool"
  in_events :: "event list"
  in_draws :: draws

subsection \<open>Event handling\<close>

definition order :: "element list" where "order = [Air, Water, Fire]"

definition order_index :: "element \<Rightarrow> int" where
  "order_index e = (case e of Air \<Rightarrow> 0 | Water \<Rightarrow> 1 | Fire \<Rightarrow> 2)"

definition handle_event :: "event \<Rightarrow> game \<Rightarrow> game" where
  "handle_event ev g =
     (case ev of
        QUIT \<Rightarrow> g\<lparr>running := False\<rparr>
      | KEYDOWN k \<Rightarrow>
          (if k = K_ESCAPE then g\<lparr>running := False\<rparr>
           else if k = K_SPACE then
             (let (shots, p') = Player_fire (player g)
              in g\<lparr>player := p', projectiles := projectiles g @ shots\<rparr>)
           else if k = K_1 then g\<lparr>player := (player g)\<lparr>element := Air\<rparr>\<rparr>
           else if k = K_2 then g\<lparr>player := (player g)\<lparr>element := Water\<rparr>\<rparr>
           else if k = K_3 then g\<lparr>player := (player g)\<lparr>element := Fire\<rparr>\<rparr>
           else if k = K_q then
             (let idx = order_index (element (player g))
              in g\<lparr>player := (player g)\<lparr>element := order ! nat ((idx - 1) mod int (length order))\<rparr>\<rparr>)
           else if k = K_e then
             (let idx = order_index (element (player g))
              in g\<lparr>player := (player g)\<lparr>element := order ! nat ((idx + 1) mod int (length order))\<rparr>\<rparr>)
           else g)
      | OTHER_EVENT \<Rightarrow> g)"

subsection \<open>Spawn logic\<close>

definition spawn_logic :: "draws \<Rightarrow> game \<Rightarrow> error + game" where
  "spawn_logic d g =
     (let t = spawn_timer g - 1
      in if t \<le> 0 then
           (case spawn_enemy d of
              Inl err \<Rightarrow> Inl err
            | Inr e \<Rightarrow> Inr (g\<lparr>spawn_timer := spawn_timer_draw d, enemies := enemies g @ [e]\<rparr>))
         else Inr (g\<lparr>spawn_timer := t\<rparr>))"

subsection \<open>Update\<close>

text \<open>
  \<^verbatim>\<open>all_sprites.update(keys)\<close> updates the player, the enemies, the projectiles and the bombs;
  \<^verbatim>\<open>projectiles.update()\<close> and \<^verbatim>\<open>bombs.update()\<close> then update the surviving projectiles and
  bombs a second time. No update reads another sprite, so the order inside a group call
  does not matter.
\<close>

definition update_sprites :: "(key \<Rightarrow> bool) \<Rightarrow> game \<Rightarrow> game" where
  "update_sprites ks g =
     (let p = Player_update ks (player g);
          es = List.map_filter Enemy_update (enemies g);
          ps1 = List.map_filter Projectile_update (projectiles g);
          bs1 = List.map_filter Bomb_update (bombs g);
          ps2 = List.map_filter Projectile_update ps1;
          bs2 = List.map_filter Bomb_update bs1;
          xs = List.map_filter Explosion_update (explosions g)
      in g\<lparr>player := p, enemies := es, projectiles := ps2, bombs := bs2, explosions := xs\<rparr>)"

subsection \<open>Enemy shooting\<close>

fun shoot_loop ::
  "(nat \<Rightarrow> int) \<Rightarrow> int \<times> int \<Rightarrow> nat \<Rightarrow> enemy list \<Rightarrow> error + (enemy list \<times> bomb list)" where
  "shoot_loop rd target i [] = Inr ([], [])"
| "shoot_loop rd target i (e # es) =
     (if enemy_kind e = Hard then
        (let e1 = e\<lparr>shoot_timer := shoot_timer e - 1\<rparr>
         in if shoot_timer e1 \<le> 0 then
              (let e2 = e1\<lparr>shoot_timer := rd i\<rparr>
               in case Bomb_init (rect_center (enemy_rect e2)) target of
                    Inl err \<Rightarrow> Inl err
                  | Inr b \<Rightarrow>
                      (case shoot_loop rd target (Suc i) es of
                         Inl err \<Rightarrow> Inl err
                       | Inr (es', bs) \<Rightarrow> Inr (e2 # es', b # bs)))
            else
              (case shoot_loop rd target (Suc i) es of
                 Inl err \<Rightarrow> Inl err
               | Inr (es', bs) \<Rightarrow> Inr (e1 # es', bs)))
      else
        (case shoot_loop rd target (Suc i) es of
           Inl err \<Rightarrow> Inl err
         | Inr (es', bs) \<Rightarrow> Inr (e # es', bs)))"

definition enemy_shooting :: "draws \<Rightarrow> game \<Rightarrow> error + game" where
  "enemy_shooting d g =
     (case shoot_loop (shoot_reset_draw d) (rect_center (p_rect (player g))) 0 (enemies g) of
        Inl err \<Rightarrow> Inl err
      | Inr (es, bs) \<Rightarrow> Inr (g\<lparr>enemies := es, bombs := bombs g @ bs\<rparr>))"

subsection \<open>Collisions\<close>

text \<open>
  \<^verbatim>\<open>pygame.sprite.spritecollideany(sprite, group)\<close>: the first member of the group, in
  iteration order, whose rect collides with the sprite's rect; here its position.
\<close>

fun spritecollideany :: "rect \<Rightarrow> rect list \<Rightarrow> nat option" where
  "spritecollideany r [] = None"
| "spritecollideany r (s # ss) =
     (if colliderect r s then Some 0 else map_option Suc (spritecollideany r ss))"

definition kill_at :: "nat \<Rightarrow> 'a list \<Rightarrow> 'a list" where
  "kill_at i xs = take i xs @ drop (Suc i) xs"

text \<open>
  One pass of the body of \<^verbatim>\<open>for proj in list(projectiles)\<close>. The loop walks a copy of the
  group; the projectiles that were not killed are collected in the field again.
\<close>

definition hit_step :: "projectile \<Rightarrow> game \<Rightarrow> game" where
  "hit_step proj g =
     (case spritecollideany (proj_rect proj) (map enemy_rect (enemies g)) of
        None \<Rightarrow> g\<lparr>projectiles := projectiles g @ [proj]\<rparr>
      | Some i \<Rightarrow>
          (let effectiveness = 1;
               hit = (enemies g ! i)\<lparr>enemy_hp := enemy_hp (enemies g ! i) - effectiveness\<rparr>;
               g1 = g\<lparr>enemies := (enemies g)[i := hit],
                      explosions := explosions g @
                        [Explosion_init (rect_center (proj_rect proj)) (proj_radius proj * 2)
                           (proj_color proj)]\<rparr>
           in if enemy_hp hit \<le> 0
              then g1\<lparr>enemies := kill_at i (enemies g1),
                      player := (player g1)\<lparr>score := score (player g1) + 5\<rparr>\<rparr>
              else g1))"

definition projectile_hits :: "game \<Rightarrow> game" where
  "projectile_hits g = fold hit_step (projectiles g) (g\<lparr>projectiles := []\<rparr>)"

text \<open>The \<^verbatim>\<open>for b in bombs\<close> loop: the position of the first bomb whose rect collides.\<close>

fun first_bomb :: "rect \<Rightarrow> bomb list \<Rightarrow> nat option" where
  "first_bomb pr [] = None"
| "first_bomb pr (b # bs) =
     (if colliderect (bomb_rect b) pr then Some 0 else map_option Suc (first_bomb pr bs))"

definition bombs_hit_player :: "game \<Rightarrow> game" where
  "bombs_hit_player g =
     (case spritecollideany (p_rect (player g)) (map bomb_rect (bombs g)) of
        None \<Rightarrow> g
      | Some j \<Rightarrow>
          (case first_bomb (p_rect (player g)) (bombs g) of
             None \<Rightarrow> g
           | Some i \<Rightarrow>
               (let b = bombs g ! i;
                    g1 = g\<lparr>explosions := explosions g @
                             [Explosion_init (rect_center (bomb_rect b)) 36 NEON_YELLOW],
                           bombs := kill_at i (bombs g),
                           player := (player g)\<lparr>lives := lives (player g) - 1\<rparr>\<rparr>
                in if lives (player g1) \<le> 0 then g1\<lparr>running := False\<rparr> else g1)))"

definition enemies_collide_player :: "game \<Rightarrow> game" where
  "enemies_collide_player g =
     (case spritecollideany (p_rect (player g)) (map enemy_rect (enemies g)) of
        None \<Rightarrow> g
      | Some i \<Rightarrow>
          (let collided = enemies g ! i;
               g1 = g\<lparr>player := (player g)\<lparr>lives := lives (player g) - 1\<rparr>,
                      explosions := explosions g @
                        [Explosion_init (rect_center (enemy_rect collided)) 28
                           (enemy_color collided)],
                      enemies := kill_at i (enemies g)\<rparr>
           in if lives (player g1) \<le> 0 then g1\<lparr>running := False\<rparr> else g1))"

subsection \<open>The main loop\<close>

text \<open>
  One pass of the body of \<^verbatim>\<open>while running\<close>, in two halves: \<open>advance\<close> handles the events,
  spawns, updates the sprites and lets the enemies shoot; \<open>resolve\<close> is the three collision
  blocks that follow.
\<close>

definition advance :: "tick_input \<Rightarrow> game \<Rightarrow> error + game" where
  "advance inp g =
     (let g1 = fold handle_event (in_events inp) g
      in case spawn_logic (in_draws inp) g1 of
           Inl err \<Rightarrow> Inl err
         | Inr g2 \<Rightarrow> enemy_shooting (in_draws inp) (update_sprites (in_keys inp) g2))"

definition resolve :: "game \<Rightarrow> game" where
  "resolve g = enemies_collide_player (bombs_hit_player (projectile_hits g))"

definition tick :: "tick_input \<Rightarrow> game \<Rightarrow> error + game" where
  "tick inp g = (case advance inp g of Inl err \<Rightarrow> Inl err | Inr g4 \<Rightarrow> Inr (resolve g4))"

text \<open>
  The loop on a finite sequence of inputs: a pass is executed only while \<open>running\<close> holds,
  and an exception ends the program.
\<close>

fun run :: "tick_input list \<Rightarrow> game \<Rightarrow> error + game" where
  "run [] g = Inr g"
| "run (inp # inps) g =
     (if running g then
        (case tick inp g of Inl err \<Rightarrow> Inl err | Inr g' \<Rightarrow> run inps g')
      else Inr g)"

section \<open>Concrete players, sprites, inputs and states\<close>

text \<open>
  The data on which the properties below are exercised: the player as \<^verbatim>\<open>main\<close> creates it,
  a few sprites and small states, and one complete play of 111 passes of the loop with the
  states it goes through.
\<close>

definition start_player :: player where
  "start_player = Player_init (WIDTH div 2, HEIGHT - 80)"

definition water_player :: player where
  "water_player = start_player\<lparr>element := Water\<rparr>"

definition first_shot :: projectile where
  "first_shot = Projectile_init (450, 510) (0, -8) Air"

definition low_shot :: projectile where
  "low_shot = Projectile_init (450, 6) (0, -8) Air"

definition bomb_1 :: bomb where
  "bomb_1 = \<lparr>bomb_pos = (450, 500), bomb_vel = (0, 9 / 2), bomb_rect = get_rect 10 10 (450, 500)\<rparr>"

definition bomb_2 :: bomb where
  "bomb_2 = \<lparr>bomb_pos = (400, 480), bomb_vel = (0, 9 / 2), bomb_rect = get_rect 10 10 (400, 480)\<rparr>"


definition two_bombs_game :: game where
  "two_bombs_game = init_game\<lparr>bombs := [bomb_1, bomb_2]\<rparr>"

definition grunt :: enemy where
  "grunt = \<lparr>enemy_kind = Beginner, enemy_pos = (450, 100), enemy_rect = get_rect 40 28 (450, 100),
             enemy_hp = 1, enemy_speed = 1, enemy_color = (90, 200, 255),
             enemy_direction = (0, 1), shoot_timer = 40\<rparr>"

definition gunner :: enemy where
  "gunner = \<lparr>enemy_kind = Hard, enemy_pos = (450, 100), enemy_rect = get_rect 40 28 (450, 100),
              enemy_hp = 3, enemy_speed = 9 / 10, enemy_color = (255, 80, 200),
              enemy_direction = (0, 1), shoot_timer = 1\<rparr>"

definition near_shot :: projectile where
  "near_shot = Projectile_init (450, 110) (0, -8) Air"

definition far_shot :: projectile where
  "far_shot = Projectile_init (450, 400) (0, -8) Air"

definition grunt_game :: game where
  "grunt_game = init_game\<lparr>enemies := [grunt]\<rparr>"

definition brute_game :: game where
  "brute_game = init_game\<lparr>enemies := [gunner]\<rparr>"

definition gunner_game :: game where
  "gunner_game = init_game\<lparr>enemies := [grunt, gunner]\<rparr>"

definition duel_game :: game where
  "duel_game = init_game\<lparr>enemies := [grunt],
                 projectiles := [Projectile_init (450, 130) (0, -8) Air], spawn_timer := 10\<rparr>"

definition volley_game :: game where
  "volley_game = init_game\<lparr>enemies := [grunt, gunner],
                   projectiles := [near_shot, far_shot, near_shot]\<rparr>"

text \<open>
  The play: the up key is held in every pass. The first two enemies are Beginners spawned
  above the player (passes 1 and 19), the third is a Hard enemy in the same column whose
  first shot is due after 73 passes (pass 37), the fourth is spawned at the left border
  (pass 79). \<open>state_n\<close> is the state after pass \<open>n\<close>.
\<close>

definition draws_a :: draws where
  "draws_a = \<lparr>spawn_timer_draw = 18, spawn_x_draw = 450, choice_draw = 0, sway_draw = 0,
               shoot_timer_draw = 40, shoot_reset_draw = (\<lambda>i. 60)\<rparr>"

definition draws_h :: draws where
  "draws_h = \<lparr>spawn_timer_draw = 42, spawn_x_draw = 450, choice_draw = 0.95, sway_draw = 0,
               shoot_timer_draw = 73, shoot_reset_draw = (\<lambda>i. 60)\<rparr>"

definition draws_c :: draws where
  "draws_c = \<lparr>spawn_timer_draw = 42, spawn_x_draw = 40, choice_draw = 0, sway_draw = 0,
               shoot_timer_draw = 40, shoot_reset_draw = (\<lambda>i. 60)\<rparr>"

definition up_a :: tick_input where
  "up_a = \<lparr>in_keys = (\<lambda>k. k = K_UP), in_events = [], in_draws = draws_a\<rparr>"

definition up_h :: tick_input where
  "up_h = \<lparr>in_keys = (\<lambda>k. k = K_UP), in_events = [], in_draws = draws_h\<rparr>"

definition up_c :: tick_input where
  "up_c = \<lparr>in_keys = (\<lambda>k. k = K_UP), in_events = [], in_draws = draws_c\<rparr>"

definition idle :: tick_input where
  "idle = \<lparr>in_keys = (\<lambda>k. False), in_events = [], in_draws = draws_a\<rparr>"

definition lethal_trace :: "tick_input list" where
  "lethal_trace = replicate 36 up_a @ replicate 42 up_h @ replicate 33 up_c"

definition state_36 :: game where
  "state_36 =
     \<lparr>player = \<lparr>speed = 4, p_rect = \<lparr>rect_x = 370, rect_y = 325, rect_w = 160, rect_h = 102\<rparr>,
                  lives = 3, score = 0, element = Air, fire_cooldown = 0\<rparr>,
       enemies = [\<lparr>enemy_kind = Beginner, enemy_pos = (450, 16), enemy_rect = \<lparr>rect_x = 430, rect_y = 2, rect_w = 40, rect_h = 28\<rparr>,
         enemy_hp = 1, enemy_speed = 1, enemy_color = (90, 200, 255), enemy_direction = (0, 1),
         shoot_timer = 40\<rparr>,
                  \<lparr>enemy_kind = Beginner, enemy_pos = (450, - 2), enemy_rect = \<lparr>rect_x = 430, rect_y = - 16, rect_w = 40, rect_h = 28\<rparr>,
         enemy_hp = 1, enemy_speed = 1, enemy_color = (90, 200, 255), enemy_direction = (0, 1),
         shoot_timer = 40\<rparr>],
       projectiles = [],
       bombs = [],
       explosions = [],
       spawn_timer = 1, running = True\<rparr>"

definition state_78 :: game where
  "state_78 =
     \<lparr>player = \<lparr>speed = 4, p_rect = \<lparr>rect_x = 370, rect_y = 157, rect_w = 160, rect_h = 102\<rparr>,
                  lives = 3, score = 0, element = Air, fire_cooldown = 0\<rparr>,
       enemies = [\<lparr>enemy_kind = Beginner, enemy_pos = (450, 58), enemy_rect = \<lparr>rect_x = 430, rect_y = 44, rect_w = 40, rect_h = 28\<rparr>,
         enemy_hp = 1, enemy_speed = 1, enemy_color = (90, 200, 255), enemy_direction = (0, 1),
         shoot_timer = 40\<rparr>,
                  \<lparr>enemy_kind = Beginner, enemy_pos = (450, 40), enemy_rect = \<lparr>rect_x = 430, rect_y = 26, rect_w = 40, rect_h = 28\<rparr>,
         enemy_hp = 1, enemy_speed = 1, enemy_color = (90, 200, 255), enemy_direction = (0, 1),
         shoot_timer = 40\<rparr>,
                  \<lparr>enemy_kind = Hard, enemy_pos = (450, 89 / 5), enemy_rect = \<lparr>rect_x = 430, rect_y = 3, rect_w = 40, rect_h = 28\<rparr>,
         enemy_hp = 3, enemy_speed = 9 / 10, enemy_color = (255, 80, 200), enemy_direction = (0, 1),
         shoot_timer = 31\<rparr>],
       projectiles = [],
       bombs = [],
       explosions = [],
       spawn_timer = 1, running = True\<rparr>"

definition state_95 :: game where
  "state_95 =
     \<lparr>player = \<lparr>speed = 4, p_rect = \<lparr>rect_x = 370, rect_y = 89, rect_w = 160, rect_h = 102\<rparr>,
                  lives = 3, score = 0, element = Air, fire_cooldown = 0\<rparr>,
       enemies = [\<lparr>enemy_kind = Beginner, enemy_pos = (450, 75), enemy_rect = \<lparr>rect_x = 430, rect_y = 61, rect_w = 40, rect_h = 28\<rparr>,
         enemy_hp = 1, enemy_speed = 1, enemy_color = (90, 200, 255), enemy_direction = (0, 1),
         shoot_timer = 40\<rparr>,
                  \<lparr>enemy_kind = Beginner, enemy_pos = (450, 57), enemy_rect = \<lparr>rect_x = 430, rect_y = 43, rect_w = 40, rect_h = 28\<rparr>,
         enemy_hp = 1, enemy_speed = 1, enemy_color = (90, 200, 255), enemy_direction = (0, 1),
         shoot_timer = 40\<rparr>,
                  \<lparr>enemy_kind = Hard, enemy_pos = (450, 331 / 10), enemy_rect = \<lparr>rect_x = 430, rect_y = 19, rect_w = 40, rect_h = 28\<rparr>,
         enemy_hp = 3, enemy_speed = 9 / 10, enemy_color = (255, 80, 200), enemy_direction = (0, 1),
         shoot_timer = 14\<rparr>,
                  \<lparr>enemy_kind = Beginner, enemy_pos = (40, - 3), enemy_rect = \<lparr>rect_x = 20, rect_y = - 17, rect_w = 40, rect_h = 28\<rparr>,
         enemy_hp = 1, enemy_speed = 1, enemy_color = (90, 200, 255), enemy_direction = (0, 1),
         shoot_timer = 40\<rparr>],
       projectiles = [],
       bombs = [],
       explosions = [],
       spawn_timer = 26, running = True\<rparr>"

definition state_99 :: game where
  "state_99 =
     \<lparr>player = \<lparr>speed = 4, p_rect = \<lparr>rect_x = 370, rect_y = 73, rect_w = 160, rect_h = 102\<rparr>,
                  lives = 1, score = 0, element = Air, fire_cooldown = 0\<rparr>,
       enemies = [\<lparr>enemy_kind = Hard, enemy_pos = (450, 367 / 10), enemy_rect = \<lparr>rect_x = 430, rect_y = 22, rect_w = 40, rect_h = 28\<rparr>,
         enemy_hp = 3, enemy_speed = 9 / 10, enemy_color = (255, 80, 200), enemy_direction = (0, 1),
         shoot_timer = 10\<rparr>,
                  \<lparr>enemy_kind = Beginner, enemy_pos = (40, 1), enemy_rect = \<lparr>rect_x = 20, rect_y = - 13, rect_w = 40, rect_h = 28\<rparr>,
         enemy_hp = 1, enemy_speed = 1, enemy_color = (90, 200, 255), enemy_direction = (0, 1),
         shoot_timer = 40\<rparr>],
       projectiles = [],
       bombs = [],
       explosions = [\<lparr>expl_pos = (450, 76), expl_radius = 28, expl_color = (90, 200, 255), expl_lifetime = 15,
         expl_rect = \<lparr>rect_x = 422, rect_y = 48, rect_w = 56, rect_h = 56\<rparr>\<rparr>,
                     \<lparr>expl_pos = (450, 61), expl_radius = 28, expl_color = (90, 200, 255), expl_lifetime = 18,
         expl_rect = \<lparr>rect_x = 422, rect_y = 33, rect_w = 56, rect_h = 56\<rparr>\<rparr>],
       spawn_timer = 22, running = True\<rparr>"

definition state_110 :: game where
  "state_110 =
     \<lparr>player = \<lparr>speed = 4, p_rect = \<lparr>rect_x = 370, rect_y = 60, rect_w = 160, rect_h = 102\<rparr>,
                  lives = 1, score = 0, element = Air, fire_cooldown = 0\<rparr>,
       enemies = [\<lparr>enemy_kind = Hard, enemy_pos = (450, 233 / 5), enemy_rect = \<lparr>rect_x = 430, rect_y = 32, rect_w = 40, rect_h = 28\<rparr>,
         enemy_hp = 3, enemy_speed = 9 / 10, enemy_color = (255, 80, 200), enemy_direction = (0, 1),
         shoot_timer = 59\<rparr>,
                  \<lparr>enemy_kind = Beginner, enemy_pos = (40, 12), enemy_rect = \<lparr>rect_x = 20, rect_y = - 2, rect_w = 40, rect_h = 28\<rparr>,
         enemy_hp = 1, enemy_speed = 1, enemy_color = (90, 200, 255), enemy_direction = (0, 1),
         shoot_timer = 40\<rparr>],
       projectiles = [],
       bombs = [\<lparr>bomb_pos = (450, 54), bomb_vel = (0, 9 / 2), bomb_rect = \<lparr>rect_x = 445, rect_y = 49, rect_w = 10, rect_h = 10\<rparr>\<rparr>],
       explosions = [\<lparr>expl_pos = (450, 76), expl_radius = 28, expl_color = (90, 200, 255), expl_lifetime = 4,
         expl_rect = \<lparr>rect_x = 422, rect_y = 48, rect_w = 56, rect_h = 56\<rparr>\<rparr>,
                     \<lparr>expl_pos = (450, 61), expl_radius = 28, expl_color = (90, 200, 255), expl_lifetime = 7,
         expl_rect = \<lparr>rect_x = 422, rect_y = 33, rect_w = 56, rect_h = 56\<rparr>\<rparr>],
       spawn_timer = 11, running = True\<rparr>"

definition state_111 :: game where
  "state_111 =
     \<lparr>player = \<lparr>speed = 4, p_rect = \<lparr>rect_x = 370, rect_y = 60, rect_w = 160, rect_h = 102\<rparr>,
                  lives = - 1, score = 0, element = Air, fire_cooldown = 0\<rparr>,
       enemies = [\<lparr>enemy_kind = Beginner, enemy_pos = (40, 13), enemy_rect = \<lparr>rect_x = 20, rect_y = - 1, rect_w = 40, rect_h = 28\<rparr>,
         enemy_hp = 1, enemy_speed = 1, enemy_color = (90, 200, 255), enemy_direction = (0, 1),
         shoot_timer = 40\<rparr>],
       projectiles = [],
       bombs = [],
       explosions = [\<lparr>expl_pos = (450, 76), expl_radius = 28, expl_color = (90, 200, 255), expl_lifetime = 3,
         expl_rect = \<lparr>rect_x = 422, rect_y = 48, rect_w = 56, rect_h = 56\<rparr>\<rparr>,
                     \<lparr>expl_pos = (450, 61), expl_radius = 28, expl_color = (90, 200, 255), expl_lifetime = 6,
         expl_rect = \<lparr>rect_x = 422, rect_y = 33, rect_w = 56, rect_h = 56\<rparr>\<rparr>,
                     \<lparr>expl_pos = (450, 63), expl_radius = 36, expl_color = (255, 210, 20), expl_lifetime = 18,
         expl_rect = \<lparr>rect_x = 414, rect_y = 27, rect_w = 72, rect_h = 72\<rparr>\<rparr>,
                     \<lparr>expl_pos = (450, 47), expl_radius = 28, expl_color = (255, 80, 200), expl_lifetime = 18,
         expl_rect = \<lparr>rect_x = 422, rect_y = 19, rect_w = 56, rect_h = 56\<rparr>\<rparr>],
       spawn_timer = 10, running = False\<rparr>"

text \<open>
  What holds of the lives in every state the loop reaches: at most the 3 of the start, at
  least \<open>-1\<close>, and positive while the loop is still running.
\<close>

definition lives_inv :: "game \<Rightarrow> bool" where
  "lives_inv g \<longleftrightarrow>
     - 1 \<le> lives (player g) \<and> lives (player g) \<le> 3 \<and> (running g \<longrightarrow> 0 < lives (player g))"

section \<open>Properties\<close>

lemmas rect_edges = rect_left_def rect_top_def rect_right_def rect_bottom_def

subsection \<open>Evaluating the model on concrete inputs\<close>

lemma bisect_empty: "bisect a x lo lo = lo"
  by (subst bisect.simps) simp

lemma bisect_one: "bisect [c0, c1, c2] x 0 (Suc 0) = (if x < c0 then 0 else Suc 0)"
  by (subst bisect.simps) (simp add: bisect_empty)

lemma bisect_two:
  "bisect [c0, c1, c2] x 0 (Suc (Suc 0)) = (if x < c1 then (if x < c0 then 0 else Suc 0) else Suc (Suc 0))"
  by (subst bisect.simps) (simp add: bisect_empty bisect_one)

lemma choices_three:
  "choices [a, b, c] [w0, w1, w2] u =
     (if u * (w0 + w1 + w2) < w0 + w1 then (if u * (w0 + w1 + w2) < w0 then a else b) else c)"
  by (simp add: choices_def accumulate_def Let_def bisect_two)

lemma choices_kind:
  "choices [Beginner, Mid, Hard] [0.6, 0.3, 0.1] u =
     (if u < 0.6 then Beginner else if u < 0.9 then Mid else Hard)"
  by (simp add: choices_three)

lemmas eval_defs =
  tick_def advance_def resolve_def spawn_logic_def spawn_enemy_def Enemy_init_def
  update_sprites_def Player_update_def Enemy_update_def Projectile_update_def Bomb_update_def
  Explosion_update_def enemy_shooting_def projectile_hits_def hit_step_def
  bombs_hit_player_def enemies_collide_player_def handle_event_def Player_fire_def
  Projectile_init_def Bomb_init_def Explosion_init_def
  normalize_vec_def vec_length_def vec_add_def vec_sub_def vec_scale_def Vector2_def py_int_def
  get_rect_def set_center_def rect_center_def rect_edges colliderect_def kill_at_def
  WIDTH_def HEIGHT_def Let_def choices_three
  element_radius_def element_color_def NEON_PINK_def NEON_YELLOW_def

lemmas witness_defs = idle_def bomb_1_def bomb_2_def two_bombs_game_def grunt_def gunner_def
  near_shot_def far_shot_def grunt_game_def brute_game_def gunner_game_def duel_game_def volley_game_def

lemmas trace_defs = up_a_def up_h_def up_c_def draws_a_def draws_h_def draws_c_def

subsection \<open>Fire-rate gating\<close>

lemma fire_rejected: "0 < fire_cooldown p \<Longrightarrow> Player_fire p = ([], p)"
  by (simp add: Player_fire_def)

lemma fire_accepted:
  "\<not> 0 < fire_cooldown p \<Longrightarrow> fst (Player_fire p) \<noteq> [] \<and> fire_cooldown (snd (Player_fire p)) = 14"
  by (cases "element p") (simp_all add: Player_fire_def Let_def)

lemma Player_update_cooldown:
  "fire_cooldown (Player_update ks q) =
     (if fire_cooldown q > 0 then fire_cooldown q - 1 else fire_cooldown q)"
  by (simp add: Player_update_def Let_def)

lemma cooldown_fold:
  "0 \<le> fire_cooldown q \<Longrightarrow>
   fire_cooldown (fold Player_update kss q) = max 0 (fire_cooldown q - int (length kss))"
proof (induction kss arbitrary: q)
  case Nil
  then show ?case by simp
next
  case (Cons ks kss)
  have "0 \<le> fire_cooldown (Player_update ks q)"
    using Cons.prems by (simp add: Player_update_cooldown)
  from Cons.IH[OF this] show ?case
    using Cons.prems by (auto simp: Player_update_cooldown)
qed

text \<open>
  C2. \<^verbatim>\<open>Player.fire()\<close> returns the empty list and changes nothing while the cooldown is
  positive. Otherwise it returns a non-empty burst and sets the cooldown to 14; after
  fewer than 14 calls of \<^verbatim>\<open>Player.update\<close> (whatever the keys) the cooldown is 14 minus the
  number of calls and \<^verbatim>\<open>fire()\<close> returns the empty list, and after 14 or more calls the
  cooldown is 0 and \<^verbatim>\<open>fire()\<close> returns a non-empty burst again.
\<close>

theorem fire_rate_gating:
  "(0 < fire_cooldown p \<longrightarrow> Player_fire p = ([], p)) \<and>
   (\<not> 0 < fire_cooldown p \<longrightarrow>
      fst (Player_fire p) \<noteq> [] \<and> fire_cooldown (snd (Player_fire p)) = 14 \<and>
      (\<forall>kss. length kss < 14 \<longrightarrow>
         fire_cooldown (fold Player_update kss (snd (Player_fire p))) = 14 - int (length kss) \<and>
         fst (Player_fire (fold Player_update kss (snd (Player_fire p)))) = []) \<and>
      (\<forall>kss. 14 \<le> length kss \<longrightarrow>
         fire_cooldown (fold Player_update kss (snd (Player_fire p))) = 0 \<and>
         fst (Player_fire (fold Player_update kss (snd (Player_fire p)))) \<noteq> []))"
proof (intro conjI impI allI)
  assume "0 < fire_cooldown p"
  then show "Player_fire p = ([], p)" by (rule fire_rejected)
next
  assume a: "\<not> 0 < fire_cooldown p"
  show "fst (Player_fire p) \<noteq> []" using fire_accepted[OF a] by simp
  show c14: "fire_cooldown (snd (Player_fire p)) = 14" using fire_accepted[OF a] by simp
  {
    fix kss :: "(key \<Rightarrow> bool) list"
    assume l: "length kss < 14"
    show c: "fire_cooldown (fold Player_update kss (snd (Player_fire p))) = 14 - int (length kss)"
      using cooldown_fold[of "snd (Player_fire p)" kss] c14 l by simp
    show "fst (Player_fire (fold Player_update kss (snd (Player_fire p)))) = []"
      using fire_rejected[of "fold Player_update kss (snd (Player_fire p))"] c l by simp
  }
  {
    fix kss :: "(key \<Rightarrow> bool) list"
    assume l: "14 \<le> length kss"
    show c: "fire_cooldown (fold Player_update kss (snd (Player_fire p))) = 0"
      using cooldown_fold[of "snd (Player_fire p)" kss] c14 l by simp
    show "fst (Player_fire (fold Player_update kss (snd (Player_fire p)))) \<noteq> []"
      using fire_accepted[of "fold Player_update kss (snd (Player_fire p))"] c by simp
  }
qed

theorem fire_rate_gating_witness:
  "\<not> 0 < fire_cooldown start_player \<and>
   fst (Player_fire start_player) \<noteq> [] \<and>
   0 < fire_cooldown (snd (Player_fire start_player)) \<and>
   fst (Player_fire (snd (Player_fire start_player))) = [] \<and>
   fst (Player_fire (fold Player_update (replicate 13 (\<lambda>k. False)) (snd (Player_fire start_player)))) = [] \<and>
   fst (Player_fire (fold Player_update (replicate 14 (\<lambda>k. False)) (snd (Player_fire start_player)))) \<noteq> []"
proof -
  have h: "\<not> 0 < fire_cooldown start_player"
    by (simp add: start_player_def Player_init_def)
  note t = fire_rate_gating[of start_player, THEN conjunct2, rule_format, OF h]
  have c: "0 < fire_cooldown (snd (Player_fire start_player))" using t by simp
  have r: "fst (Player_fire (snd (Player_fire start_player))) = []"
    using fire_rate_gating[of "snd (Player_fire start_player)", THEN conjunct1, rule_format, OF c] by simp
  have a: "fst (Player_fire (fold Player_update (replicate 13 (\<lambda>k. False)) (snd (Player_fire start_player)))) = []"
    using t[THEN conjunct2, THEN conjunct2, THEN conjunct1, rule_format,
            of "replicate 13 (\<lambda>k. False)"] by simp
  have b: "fst (Player_fire (fold Player_update (replicate 14 (\<lambda>k. False)) (snd (Player_fire start_player)))) \<noteq> []"
    using t[THEN conjunct2, THEN conjunct2, THEN conjunct2, rule_format,
            of "replicate 14 (\<lambda>k. False)"] by simp
  from h t c r a b show ?thesis by simp
qed

subsection \<open>The Water burst\<close>

lemma sin_015_pos: "0 < sin (0.15::real)"
proof -
  have "(0.15::real) < 2" by simp
  then have "(0.15::real) < pi" using pi_ge_two by linarith
  then show ?thesis by (simp add: sin_gt_zero)
qed

lemma water_vels:
  "\<not> 0 < fire_cooldown p \<Longrightarrow> element p = Water \<Longrightarrow>
   map proj_vel (fst (Player_fire p)) = [(sin (-0.15) * 6, -6), (0, -6), (sin 0.15 * 6, -6)]"
  by (simp add: Player_fire_def Let_def Projectile_init_def)

lemma length_middle_shot: "vec_length (0, -6) = 6"
  by (simp add: vec_length_def)

lemma length_outer_shot: "6 < vec_length (sin 0.15 * 6, -6)"
proof -
  have "0 < (sin (0.15::real) * 6) * (sin 0.15 * 6)" using sin_015_pos by simp
  then have "(36::real) < sin 0.15 * 6 * (sin 0.15 * 6) + (-6) * (-6)" by simp
  then have "sqrt 36 < sqrt (sin 0.15 * 6 * (sin 0.15 * 6) + (-6) * (-6))"
    using real_sqrt_less_iff by blast
  moreover have "sqrt 36 = (6::real)" using real_sqrt_abs[of 6] by simp
  ultimately show ?thesis by (simp add: vec_length_def)
qed

lemma length_outer_shots_equal:
  "vec_length (sin (-0.15) * 6, -6) = vec_length (sin 0.15 * 6, -6)"
  by (simp add: vec_length_def)

lemma water_player_ready: "\<not> 0 < fire_cooldown water_player \<and> element water_player = Water"
  by (simp add: water_player_def start_player_def Player_init_def)

text \<open>
  C3, as stated, fails: the three Water shots do not have the same speed. The middle shot
  has speed 6, the outer shots have the horizontal component \<open>sin 0.15 * 6\<close> on top of
  the same vertical component, so they are faster.
\<close>

theorem water_speed_counterexample:
  "vec_length (proj_vel (fst (Player_fire water_player) ! 0))
     \<noteq> vec_length (proj_vel (fst (Player_fire water_player) ! 1))"
proof -
  have "map proj_vel (fst (Player_fire water_player))
          = [(sin (-0.15) * 6, -6), (0, -6), (sin 0.15 * 6, -6)]"
    using water_player_ready by (simp add: water_vels)
  then have "proj_vel (fst (Player_fire water_player) ! 0) = (sin (-0.15) * 6, -6)"
        and "proj_vel (fst (Player_fire water_player) ! 1) = (0, -6)"
    by (auto simp: map_eq_Cons_conv)
  then show ?thesis
    using length_outer_shot length_middle_shot length_outer_shots_equal by simp
qed

text \<open>
  C3, amended. When the cooldown is not positive and the element is Water, \<^verbatim>\<open>fire()\<close>
  returns exactly three projectiles with the velocities \<open>(sin (-0.15) * 6, -6)\<close>,
  \<open>(0, -6)\<close> and \<open>(sin 0.15 * 6, -6)\<close>. All three have the vertical component \<open>-6\<close>;
  the two outer shots have the same speed, which is greater than the speed 6 of the
  middle shot.
\<close>

theorem water_spread:
  "\<not> 0 < fire_cooldown p \<Longrightarrow> element p = Water \<Longrightarrow>
   map proj_vel (fst (Player_fire p)) = [(sin (-0.15) * 6, -6), (0, -6), (sin 0.15 * 6, -6)] \<and>
   length (fst (Player_fire p)) = 3 \<and>
   list_all (\<lambda>q. snd (proj_vel q) = -6) (fst (Player_fire p)) \<and>
   vec_length (sin (-0.15) * 6, -6) = vec_length (sin 0.15 * 6, -6) \<and>
   vec_length (0, -6) = 6 \<and>
   6 < vec_length (sin 0.15 * 6, -6)"
proof (intro conjI)
  assume a: "\<not> 0 < fire_cooldown p" "element p = Water"
  show "map proj_vel (fst (Player_fire p)) = [(sin (-0.15) * 6, -6), (0, -6), (sin 0.15 * 6, -6)]"
    using a by (rule water_vels)
  show "length (fst (Player_fire p)) = 3" using a by (simp add: Player_fire_def Let_def)
  show "list_all (\<lambda>q. snd (proj_vel q) = -6) (fst (Player_fire p))"
    using a by (simp add: Player_fire_def Let_def Projectile_init_def)
qed (rule length_outer_shots_equal length_middle_shot length_outer_shot)+

theorem water_spread_witness:
  "\<not> 0 < fire_cooldown water_player \<and> element water_player = Water \<and>
   map proj_vel (fst (Player_fire water_player)) = [(sin (-0.15) * 6, -6), (0, -6), (sin 0.15 * 6, -6)]"
  using water_spread[of water_player] water_player_ready by simp

subsection \<open>Off-screen cleanup of projectiles\<close>

lemma low_shot_update:
  "Projectile_update low_shot =
     Some (low_shot\<lparr>proj_pos := (450, -2), proj_rect := get_rect 32 32 (450, -2)\<rparr>)"
  by (simp add: low_shot_def Projectile_update_def Projectile_init_def Let_def vec_add_def
      Vector2_def py_int_def set_center_def get_rect_def element_radius_def rect_edges
      HEIGHT_def WIDTH_def)

lemma first_shot_fired: "fst (Player_fire start_player) = [first_shot]"
  by (simp add: first_shot_def start_player_def Player_fire_def Player_init_def Let_def
      get_rect_def set_center_def rect_center_def WIDTH_def HEIGHT_def)

lemma low_shot_reached:
  "((\<lambda>q. Option.bind q Projectile_update) ^^ 63) (Some first_shot) = Some low_shot"
  by (simp add: eval_nat_numeral first_shot_def low_shot_def eval_defs)

text \<open>
  C9, as stated, fails. The Air shot that the player fires from the start position is at
  \<open>(450, 6)\<close> after 63 updates (\<open>low_shot_reached\<close>). The next update moves it to
  \<open>(450, -2)\<close>, so its position has \<open>y < 0\<close>, but its 32 by 32 box still reaches into the
  playfield and the update keeps it; the update after that, to \<open>(450, -10)\<close>, keeps it as
  well.
\<close>

theorem projectile_offscreen_counterexample:
  "snd (vec_add (proj_pos low_shot) (proj_vel low_shot)) < 0 \<and>
   Projectile_update low_shot \<noteq> None \<and>
   Option.bind (Projectile_update low_shot) Projectile_update \<noteq> None"
proof -
  have "snd (vec_add (proj_pos low_shot) (proj_vel low_shot)) < 0"
    by (simp add: low_shot_def Projectile_init_def vec_add_def Vector2_def)
  moreover have "Option.bind (Projectile_update low_shot) Projectile_update \<noteq> None"
    by (simp add: low_shot_update)
       (simp add: low_shot_def Projectile_update_def Projectile_init_def Let_def vec_add_def
          py_int_def set_center_def get_rect_def rect_edges HEIGHT_def WIDTH_def)
  ultimately show ?thesis by (simp add: low_shot_update)
qed

text \<open>
  C9, amended. \<^verbatim>\<open>Projectile.update\<close> moves the projectile by its velocity, puts the centre
  of its box at the truncated position \<open>(cx, cy)\<close>, and removes the projectile exactly when
  the box, which extends by the radius on each side, lies wholly outside the playfield:
  \<open>cy + radius < 0\<close>, or \<open>cy - radius > HEIGHT\<close>, or \<open>cx - radius > WIDTH\<close>, or
  \<open>cx + radius < 0\<close>.
\<close>

theorem projectile_offscreen:
  "rect_w (proj_rect p) = 2 * proj_radius p \<Longrightarrow> rect_h (proj_rect p) = 2 * proj_radius p \<Longrightarrow>
   Projectile_update p = None \<longleftrightarrow>
     (let pos = vec_add (proj_pos p) (proj_vel p); cx = py_int (fst pos); cy = py_int (snd pos)
      in cy + proj_radius p < 0 \<or> cy - proj_radius p > HEIGHT
         \<or> cx - proj_radius p > WIDTH \<or> cx + proj_radius p < 0)"
  by (simp add: Projectile_update_def Let_def set_center_def rect_edges)

theorem projectile_offscreen_witness:
  "rect_w (proj_rect low_shot) = 2 * proj_radius low_shot \<and>
   rect_h (proj_rect low_shot) = 2 * proj_radius low_shot \<and>
   Projectile_update low_shot \<noteq> None \<and>
   Projectile_update (low_shot\<lparr>proj_vel := (0, -30)\<rparr>) = None"
  using projectile_offscreen[of low_shot] projectile_offscreen[of "low_shot\<lparr>proj_vel := (0, -30)\<rparr>"]
  by (simp add: low_shot_def Projectile_init_def Let_def vec_add_def Vector2_def
      py_int_def set_center_def get_rect_def element_radius_def HEIGHT_def WIDTH_def)

subsection \<open>Creating a bomb at its own target\<close>

text \<open>
  C10. \<^verbatim>\<open>Bomb(pos, target)\<close> with \<open>target = pos\<close> raises: the direction is the zero vector
  and \<^verbatim>\<open>normalize()\<close> raises ValueError, so no bomb is produced.
\<close>

theorem bomb_at_target_raises: "Bomb_init pos pos = Inl ValueError"
  by (simp add: Bomb_init_def normalize_vec_def vec_sub_def vec_length_def)

subsection \<open>Finding the first collision\<close>

lemma colliderect_sym: "colliderect a b = colliderect b a"
  by (auto simp: colliderect_def)

lemma spritecollideany_Some:
  "spritecollideany r rs = Some i \<longleftrightarrow>
     i < length rs \<and> colliderect r (rs ! i) \<and> (\<forall>j<i. \<not> colliderect r (rs ! j))"
proof (induction rs arbitrary: i)
  case Nil
  then show ?case by simp
next
  case (Cons s ss)
  show ?case
  proof (cases "colliderect r s")
    case True
    then show ?thesis by (cases i) auto
  next
    case False
    show ?thesis
    proof (cases i)
      case 0
      with False show ?thesis by simp
    next
      case (Suc k)
      have "(\<forall>j<Suc k. \<not> colliderect r ((s # ss) ! j)) \<longleftrightarrow> (\<forall>j<k. \<not> colliderect r (ss ! j))"
        using False by (auto simp: less_Suc_eq_0_disj)
      with False Suc Cons.IH[of k] show ?thesis by auto
    qed
  qed
qed

lemma spritecollideany_None:
  "spritecollideany r rs = None \<longleftrightarrow> (\<forall>s\<in>set rs. \<not> colliderect r s)"
  by (induction rs) auto

lemma first_bomb_eq:
  "first_bomb pr bs = spritecollideany pr (map bomb_rect bs)"
  by (induction bs) (auto simp: colliderect_sym)

lemma length_kill_at: "i < length xs \<Longrightarrow> length (kill_at i xs) + 1 = length xs"
  by (simp add: kill_at_def)

lemma set_kill_at: "set (kill_at i xs) \<subseteq> set xs"
  by (auto simp: kill_at_def dest: in_set_takeD in_set_dropD)

subsection \<open>Bombs against the player\<close>

text \<open>
  C5. When at least one bomb's rect collides with the player's rect, the bomb block
  resolves exactly one bomb, the first colliding one in the order of the group: that bomb
  and no other is removed, one explosion (radius 36, at the bomb's centre) is added, and
  the lives go down by exactly 1, however many bombs overlap the player. Score, enemies
  and projectiles are untouched, and the loop flag is cleared when the lives are used up.
\<close>

theorem bomb_hits_player_once:
  assumes "\<exists>b\<in>set (bombs g). colliderect (bomb_rect b) (p_rect (player g))"
  shows "\<exists>i<length (bombs g).
           colliderect (bomb_rect (bombs g ! i)) (p_rect (player g)) \<and>
           (\<forall>j<i. \<not> colliderect (bomb_rect (bombs g ! j)) (p_rect (player g))) \<and>
           bombs (bombs_hit_player g) = kill_at i (bombs g) \<and>
           length (bombs (bombs_hit_player g)) + 1 = length (bombs g) \<and>
           explosions (bombs_hit_player g) =
             explosions g @ [Explosion_init (rect_center (bomb_rect (bombs g ! i))) 36 NEON_YELLOW] \<and>
           lives (player (bombs_hit_player g)) = lives (player g) - 1 \<and>
           score (player (bombs_hit_player g)) = score (player g) \<and>
           enemies (bombs_hit_player g) = enemies g \<and>
           projectiles (bombs_hit_player g) = projectiles g \<and>
           running (bombs_hit_player g) = (running g \<and> \<not> lives (player g) - 1 \<le> 0)"
proof -
  let ?pr = "p_rect (player g)"
  from assms have "spritecollideany ?pr (map bomb_rect (bombs g)) \<noteq> None"
    by (auto simp: spritecollideany_None colliderect_sym)
  then obtain i where i: "spritecollideany ?pr (map bomb_rect (bombs g)) = Some i" by auto
  then have fb: "first_bomb ?pr (bombs g) = Some i" by (simp add: first_bomb_eq)
  from i have il: "i < length (bombs g)"
    and ci: "colliderect ?pr (bomb_rect (bombs g ! i))"
    and cj: "\<forall>j<i. \<not> colliderect ?pr (bomb_rect (bombs g ! j))"
    by (auto simp: spritecollideany_Some)
  show ?thesis
  proof (intro exI[of _ i] conjI)
    show "i < length (bombs g)" by (rule il)
    show "colliderect (bomb_rect (bombs g ! i)) ?pr" using ci by (simp add: colliderect_sym)
    show "\<forall>j<i. \<not> colliderect (bomb_rect (bombs g ! j)) ?pr" using cj by (simp add: colliderect_sym)
    show "bombs (bombs_hit_player g) = kill_at i (bombs g)"
      using i fb by (simp add: bombs_hit_player_def Let_def)
    then show "length (bombs (bombs_hit_player g)) + 1 = length (bombs g)"
      using length_kill_at[OF il] by simp
  qed (use i fb in \<open>auto simp: bombs_hit_player_def Let_def\<close>)
qed

theorem bomb_hits_player_once_witness:
  "colliderect (bomb_rect bomb_1) (p_rect (player two_bombs_game)) \<and>
   colliderect (bomb_rect bomb_2) (p_rect (player two_bombs_game)) \<and>
   bombs (bombs_hit_player two_bombs_game) = [bomb_2] \<and>
   lives (player (bombs_hit_player two_bombs_game)) = 2 \<and>
   length (explosions (bombs_hit_player two_bombs_game)) = 1"
proof -
  have c: "colliderect (bomb_rect bomb_1) (p_rect (player two_bombs_game))"
          "colliderect (bomb_rect bomb_2) (p_rect (player two_bombs_game))"
    by (simp_all add: witness_defs init_game_def Player_init_def eval_defs)
  then have "\<exists>b\<in>set (bombs two_bombs_game). colliderect (bomb_rect b) (p_rect (player two_bombs_game))"
    by (simp add: two_bombs_game_def)
  from bomb_hits_player_once[OF this] obtain i where
    i: "\<forall>j<i. \<not> colliderect (bomb_rect (bombs two_bombs_game ! j)) (p_rect (player two_bombs_game))"
       "bombs (bombs_hit_player two_bombs_game) = kill_at i (bombs two_bombs_game)"
       "explosions (bombs_hit_player two_bombs_game) =
          explosions two_bombs_game @
            [Explosion_init (rect_center (bomb_rect (bombs two_bombs_game ! i))) 36 NEON_YELLOW]"
       "lives (player (bombs_hit_player two_bombs_game)) = lives (player two_bombs_game) - 1"
    by blast
  have "i = 0"
  proof (rule ccontr)
    assume "i \<noteq> 0"
    then have "0 < i" by simp
    with i(1) have "\<not> colliderect (bomb_rect (bombs two_bombs_game ! 0)) (p_rect (player two_bombs_game))"
      by blast
    with c(1) show False by (simp add: two_bombs_game_def)
  qed
  with i(2-4) c show ?thesis
    by (simp add: two_bombs_game_def kill_at_def init_game_def Player_init_def)
qed

subsection \<open>Projectiles against enemies\<close>

lemma hit_step_miss:
  "spritecollideany (proj_rect proj) (map enemy_rect (enemies g)) = None \<Longrightarrow>
   hit_step proj g = g\<lparr>projectiles := projectiles g @ [proj]\<rparr>"
  by (simp add: hit_step_def)

lemma hit_step_hit:
  assumes "spritecollideany (proj_rect proj) (map enemy_rect (enemies g)) = Some i"
  shows "projectiles (hit_step proj g) = projectiles g"
    and "explosions (hit_step proj g) =
           explosions g @ [Explosion_init (rect_center (proj_rect proj)) (proj_radius proj * 2)
                             (proj_color proj)]"
    and "enemy_hp (enemies g ! i) - 1 \<le> 0 \<Longrightarrow>
           enemies (hit_step proj g) = kill_at i (enemies g) \<and>
           score (player (hit_step proj g)) = score (player g) + 5"
    and "\<not> enemy_hp (enemies g ! i) - 1 \<le> 0 \<Longrightarrow>
           enemies (hit_step proj g) =
             (enemies g)[i := (enemies g ! i)\<lparr>enemy_hp := enemy_hp (enemies g ! i) - 1\<rparr>] \<and>
           score (player (hit_step proj g)) = score (player g)"
    and "lives (player (hit_step proj g)) = lives (player g)"
    and "bombs (hit_step proj g) = bombs g"
    and "running (hit_step proj g) = running g"
  using assms by (simp_all add: hit_step_def Let_def kill_at_def)

lemma hit_step_element:
  "enemies (hit_step (proj\<lparr>proj_element := el\<rparr>) g) = enemies (hit_step proj g) \<and>
   score (player (hit_step (proj\<lparr>proj_element := el\<rparr>) g)) = score (player (hit_step proj g))"
  by (simp add: hit_step_def Let_def split: option.splits)

lemma hit_step_count:
  "length (projectiles (hit_step proj g)) + length (explosions (hit_step proj g))
     = length (projectiles g) + length (explosions g) + 1"
  by (simp add: hit_step_def Let_def split: option.splits)

lemma fold_hit_step_count:
  "length (projectiles (fold hit_step ps g)) + length (explosions (fold hit_step ps g))
     = length (projectiles g) + length (explosions g) + length ps"
  by (induction ps arbitrary: g) (simp_all add: hit_step_count)

lemma hit_step_projectiles:
  "projectiles (hit_step proj g) = projectiles g \<or>
   projectiles (hit_step proj g) = projectiles g @ [proj]"
  by (simp add: hit_step_def Let_def split: option.splits)

lemma fold_hit_step_kept:
  "\<exists>qs. projectiles (fold hit_step ps g) = projectiles g @ qs \<and> subseq qs ps"
proof (induction ps arbitrary: g)
  case Nil
  show ?case by simp
next
  case (Cons p ps)
  from Cons.IH[of "hit_step p g"] obtain qs where
    qs: "projectiles (fold hit_step ps (hit_step p g)) = projectiles (hit_step p g) @ qs"
        "subseq qs ps" by blast
  from hit_step_projectiles[of p g] show ?case
  proof
    assume "projectiles (hit_step p g) = projectiles g"
    with qs show ?thesis by (auto intro!: exI[of _ qs])
  next
    assume "projectiles (hit_step p g) = projectiles g @ [p]"
    with qs show ?thesis by (auto intro!: exI[of _ "p # qs"])
  qed
qed

lemma projectile_hits_kept: "subseq (projectiles (projectile_hits g)) (projectiles g)"
  using fold_hit_step_kept[of "projectiles g" "g\<lparr>projectiles := []\<rparr>"]
  by (auto simp: projectile_hits_def)

lemma projectile_hits_count:
  "length (projectiles (projectile_hits g)) + length (explosions (projectile_hits g))
     = length (explosions g) + length (projectiles g)"
  by (simp add: projectile_hits_def fold_hit_step_count)

subsection \<open>The spawner\<close>

lemma normalize_sway: "normalize_vec (a, 1) = Inr (a / sqrt (a * a + 1), 1 / sqrt (a * a + 1))"
proof -
  have "0 < a * a + 1" by (simp add: add_nonneg_pos)
  then have "sqrt (a * a + 1) \<noteq> 0" by simp
  then show ?thesis by (simp add: normalize_vec_def vec_length_def)
qed

lemma Enemy_init_ok:
  "\<exists>e. Enemy_init pos k a t = Inr e \<and> enemy_kind e = k \<and> enemy_pos e = Vector2 pos \<and>
       enemy_rect e = get_rect 40 28 pos \<and>
       enemy_hp e = (case k of Beginner \<Rightarrow> 1 | Mid \<Rightarrow> 2 | Hard \<Rightarrow> 3) \<and>
       enemy_speed e = (case k of Beginner \<Rightarrow> 1.0 | Mid \<Rightarrow> 1.2 | Hard \<Rightarrow> 0.9) \<and>
       shoot_timer e = t"
  by (simp add: Enemy_init_def normalize_sway)

lemma valid_trace_draws: "valid_draws draws_a \<and> valid_draws draws_h \<and> valid_draws draws_c"
  by (simp add: valid_draws_def draws_a_def draws_h_def draws_c_def WIDTH_def)

text \<open>
  C6. With draws in the ranges of the calls (\<^verbatim>\<open>randint(18, 42)\<close>, \<^verbatim>\<open>randint(40, WIDTH - 40)\<close>,
  \<^verbatim>\<open>random()\<close> in \<open>[0, 1)\<close>): when the countdown, decremented, is \<open>\<le> 0\<close>, it is reset to the
  drawn value in \<open>[18, 42]\<close> and exactly one enemy is appended, at \<open>(x, -20)\<close> with the drawn
  \<open>x\<close>, of the kind chosen by \<^verbatim>\<open>random.choices\<close>, with hp 1/2/3 and speed 1.0/1.2/0.9 for
  Beginner/Mid/Hard; otherwise the countdown is decremented and no enemy is created. The
  kind is Beginner, Mid or Hard exactly when the value of \<^verbatim>\<open>random()\<close> lies in \<open>[0, 0.6)\<close>,
  \<open>[0.6, 0.9)\<close> or \<open>[0.9, 1)\<close>: intervals of length 0.6, 0.3 and 0.1, which are the
  probabilities under the uniform draw.
\<close>

theorem spawner:
  assumes "valid_draws d"
  shows "(spawn_timer g - 1 \<le> 0 \<longrightarrow>
           (\<exists>e. spawn_logic d g =
                   Inr (g\<lparr>spawn_timer := spawn_timer_draw d, enemies := enemies g @ [e]\<rparr>) \<and>
                18 \<le> spawn_timer_draw d \<and> spawn_timer_draw d \<le> 42 \<and>
                enemy_pos e = (real_of_int (spawn_x_draw d), -20) \<and>
                rect_center (enemy_rect e) = (spawn_x_draw d, -20) \<and>
                40 \<le> spawn_x_draw d \<and> spawn_x_draw d \<le> WIDTH - 40 \<and>
                enemy_kind e = choices [Beginner, Mid, Hard] [0.6, 0.3, 0.1] (choice_draw d) \<and>
                enemy_hp e = (case enemy_kind e of Beginner \<Rightarrow> 1 | Mid \<Rightarrow> 2 | Hard \<Rightarrow> 3) \<and>
                enemy_speed e = (case enemy_kind e of Beginner \<Rightarrow> 1.0 | Mid \<Rightarrow> 1.2 | Hard \<Rightarrow> 0.9))) \<and>
         (\<not> spawn_timer g - 1 \<le> 0 \<longrightarrow> spawn_logic d g = Inr (g\<lparr>spawn_timer := spawn_timer g - 1\<rparr>)) \<and>
         {u. 0 \<le> u \<and> u < 1 \<and> choices [Beginner, Mid, Hard] [0.6, 0.3, 0.1] u = Beginner} = {0..<0.6} \<and>
         {u. 0 \<le> u \<and> u < 1 \<and> choices [Beginner, Mid, Hard] [0.6, 0.3, 0.1] u = Mid} = {0.6..<0.9} \<and>
         {u. 0 \<le> u \<and> u < 1 \<and> choices [Beginner, Mid, Hard] [0.6, 0.3, 0.1] u = Hard} = {0.9..<1}"
proof (intro conjI impI)
  assume t: "spawn_timer g - 1 \<le> 0"
  let ?k = "choices [Beginner, Mid, Hard] [0.6, 0.3, 0.1] (choice_draw d)"
  obtain e where e: "Enemy_init (spawn_x_draw d, -20) ?k (sway_draw d) (shoot_timer_draw d) = Inr e"
      "enemy_kind e = ?k" "enemy_pos e = Vector2 (spawn_x_draw d, -20)"
      "enemy_rect e = get_rect 40 28 (spawn_x_draw d, -20)"
      "enemy_hp e = (case ?k of Beginner \<Rightarrow> 1 | Mid \<Rightarrow> 2 | Hard \<Rightarrow> 3)"
      "enemy_speed e = (case ?k of Beginner \<Rightarrow> 1.0 | Mid \<Rightarrow> 1.2 | Hard \<Rightarrow> 0.9)"
    using Enemy_init_ok by blast
  have "spawn_logic d g = Inr (g\<lparr>spawn_timer := spawn_timer_draw d, enemies := enemies g @ [e]\<rparr>)"
    using t e(1) by (simp add: spawn_logic_def spawn_enemy_def Let_def)
  moreover have "rect_center (enemy_rect e) = (spawn_x_draw d, -20)"
    by (simp add: e(4) get_rect_def set_center_def rect_center_def)
  moreover have "enemy_pos e = (real_of_int (spawn_x_draw d), -20)"
    by (simp add: e(3) Vector2_def)
  ultimately show "\<exists>e. spawn_logic d g =
                   Inr (g\<lparr>spawn_timer := spawn_timer_draw d, enemies := enemies g @ [e]\<rparr>) \<and>
                18 \<le> spawn_timer_draw d \<and> spawn_timer_draw d \<le> 42 \<and>
                enemy_pos e = (real_of_int (spawn_x_draw d), -20) \<and>
                rect_center (enemy_rect e) = (spawn_x_draw d, -20) \<and>
                40 \<le> spawn_x_draw d \<and> spawn_x_draw d \<le> WIDTH - 40 \<and>
                enemy_kind e = choices [Beginner, Mid, Hard] [0.6, 0.3, 0.1] (choice_draw d) \<and>
                enemy_hp e = (case enemy_kind e of Beginner \<Rightarrow> 1 | Mid \<Rightarrow> 2 | Hard \<Rightarrow> 3) \<and>
                enemy_speed e = (case enemy_kind e of Beginner \<Rightarrow> 1.0 | Mid \<Rightarrow> 1.2 | Hard \<Rightarrow> 0.9)"
    using assms e(2,5,6) by (intro exI[of _ e]) (simp add: valid_draws_def)
next
  assume "\<not> spawn_timer g - 1 \<le> 0"
  then show "spawn_logic d g = Inr (g\<lparr>spawn_timer := spawn_timer g - 1\<rparr>)"
    by (simp add: spawn_logic_def Let_def)
next
  show "{u. 0 \<le> u \<and> u < 1 \<and> choices [Beginner, Mid, Hard] [0.6, 0.3, 0.1] u = Beginner} = {0..<0.6}"
    unfolding choices_kind by (auto split: if_splits)
  show "{u. 0 \<le> u \<and> u < 1 \<and> choices [Beginner, Mid, Hard] [0.6, 0.3, 0.1] u = Mid} = {0.6..<0.9}"
    unfolding choices_kind by (auto split: if_splits)
  show "{u. 0 \<le> u \<and> u < 1 \<and> choices [Beginner, Mid, Hard] [0.6, 0.3, 0.1] u = Hard} = {0.9..<1}"
    unfolding choices_kind by (auto split: if_splits)
qed

theorem spawner_witness:
  "valid_draws draws_a \<and> spawn_timer init_game - 1 \<le> 0 \<and>
   (\<exists>e. spawn_logic draws_a init_game = Inr (init_game\<lparr>spawn_timer := 18, enemies := [e]\<rparr>) \<and>
        enemy_kind e = Beginner \<and> enemy_hp e = 1 \<and> enemy_speed e = 1 \<and>
        enemy_pos e = (450, -20)) \<and>
   \<not> spawn_timer state_99 - 1 \<le> 0 \<and>
   spawn_logic draws_a state_99 = Inr (state_99\<lparr>spawn_timer := 21\<rparr>)"
proof -
  have v: "valid_draws draws_a" using valid_trace_draws by simp
  have k: "choices [Beginner, Mid, Hard] [0.6, 0.3, 0.1] (choice_draw draws_a) = Beginner"
    by (simp add: choices_three draws_a_def)
  have t: "spawn_timer init_game - 1 \<le> 0" by (simp add: init_game_def)
  have n: "\<not> spawn_timer state_99 - 1 \<le> 0" by (simp add: state_99_def)
  from spawner[OF v, of init_game] t k
  have "\<exists>e. spawn_logic draws_a init_game = Inr (init_game\<lparr>spawn_timer := 18, enemies := [e]\<rparr>) \<and>
        enemy_kind e = Beginner \<and> enemy_hp e = 1 \<and> enemy_speed e = 1 \<and>
        enemy_pos e = (450, -20)"
    by (auto simp: draws_a_def init_game_def)
  moreover from spawner[OF v, of state_99] n
  have "spawn_logic draws_a state_99 = Inr (state_99\<lparr>spawn_timer := 21\<rparr>)"
    by (simp add: state_99_def)
  ultimately show ?thesis using v t n by blast
qed

subsection \<open>What each block of the loop leaves alone\<close>

lemma Player_fire_frame: "lives (snd (Player_fire p)) = lives p \<and> score (snd (Player_fire p)) = score p"
  by (simp add: Player_fire_def Let_def)

lemma handle_event_frame:
  "lives (player (handle_event ev g)) = lives (player g) \<and>
   score (player (handle_event ev g)) = score (player g) \<and>
   enemies (handle_event ev g) = enemies g \<and>
   bombs (handle_event ev g) = bombs g \<and>
   (running (handle_event ev g) \<longrightarrow> running g)"
  using Player_fire_frame[of "player g"]
  by (cases ev) (auto simp: handle_event_def Let_def split: prod.splits)

lemma fold_handle_event_frame:
  "lives (player (fold handle_event evs g)) = lives (player g) \<and>
   score (player (fold handle_event evs g)) = score (player g) \<and>
   enemies (fold handle_event evs g) = enemies g \<and>
   bombs (fold handle_event evs g) = bombs g \<and>
   (running (fold handle_event evs g) \<longrightarrow> running g)"
proof (induction evs arbitrary: g)
  case Nil
  show ?case by simp
next
  case (Cons ev evs)
  show ?case using Cons.IH[of "handle_event ev g"] handle_event_frame[of ev g] by simp
qed

lemma spawn_logic_frame:
  assumes "spawn_logic d g = Inr g'"
  shows "player g' = player g" "bombs g' = bombs g" "running g' = running g"
    "(\<forall>e\<in>set (enemies g). 0 < enemy_hp e) \<Longrightarrow> (\<forall>e\<in>set (enemies g'). 0 < enemy_hp e)"
proof -
  obtain e where e: "spawn_enemy d = Inr e" "0 < enemy_hp e"
    using Enemy_init_ok[of "(spawn_x_draw d, -20)"
        "choices [Beginner, Mid, Hard] [0.6, 0.3, 0.1] (choice_draw d)" "sway_draw d" "shoot_timer_draw d"]
    by (auto simp: spawn_enemy_def Let_def split: kind.splits)
  from assms e show "player g' = player g" "bombs g' = bombs g" "running g' = running g"
    "(\<forall>e\<in>set (enemies g). 0 < enemy_hp e) \<Longrightarrow> (\<forall>e\<in>set (enemies g'). 0 < enemy_hp e)"
    by (auto simp: spawn_logic_def Let_def split: if_splits)
qed

lemma spawn_logic_total: "\<exists>g'. spawn_logic d g = Inr g'"
  using Enemy_init_ok[of "(spawn_x_draw d, -20)"
        "choices [Beginner, Mid, Hard] [0.6, 0.3, 0.1] (choice_draw d)" "sway_draw d" "shoot_timer_draw d"]
  by (auto simp: spawn_logic_def spawn_enemy_def Let_def)

lemma Enemy_update_hp: "Enemy_update e = Some e' \<Longrightarrow> enemy_hp e' = enemy_hp e"
  by (auto simp: Enemy_update_def Let_def split: if_splits)

lemma Bomb_update_vel:
  "Bomb_update b = Some b' \<Longrightarrow>
   bomb_vel b' = bomb_vel b \<and> bomb_pos b' = vec_add (bomb_pos b) (bomb_vel b)"
  by (auto simp: Bomb_update_def Let_def split: if_splits)

lemma set_map_filter: "set (List.map_filter f xs) = {y. \<exists>x\<in>set xs. f x = Some y}"
  by (induction xs) (auto simp: List.map_filter_simps split: option.splits)

lemma length_map_filter: "length (List.map_filter f xs) \<le> length xs"
  by (induction xs) (auto simp: List.map_filter_simps split: option.splits)

lemma update_sprites_frame:
  "lives (player (update_sprites ks g)) = lives (player g)"
  "score (player (update_sprites ks g)) = score (player g)"
  "running (update_sprites ks g) = running g"
  "(\<forall>e\<in>set (enemies g). 0 < enemy_hp e) \<Longrightarrow> (\<forall>e\<in>set (enemies (update_sprites ks g)). 0 < enemy_hp e)"
  "length (bombs (update_sprites ks g)) \<le> length (bombs g)"
  "bomb_vel ` set (bombs (update_sprites ks g)) \<subseteq> bomb_vel ` set (bombs g)"
proof -
  show "lives (player (update_sprites ks g)) = lives (player g)"
       "score (player (update_sprites ks g)) = score (player g)"
       "running (update_sprites ks g) = running g"
    by (simp_all add: update_sprites_def Player_update_def Let_def)
  show "(\<forall>e\<in>set (enemies g). 0 < enemy_hp e) \<Longrightarrow> (\<forall>e\<in>set (enemies (update_sprites ks g)). 0 < enemy_hp e)"
    by (auto simp: update_sprites_def Let_def set_map_filter dest: Enemy_update_hp)
  have "length (List.map_filter Bomb_update (List.map_filter Bomb_update (bombs g))) \<le> length (bombs g)"
    using length_map_filter[of Bomb_update "List.map_filter Bomb_update (bombs g)"]
          length_map_filter[of Bomb_update "bombs g"] by linarith
  then show "length (bombs (update_sprites ks g)) \<le> length (bombs g)"
    by (simp add: update_sprites_def Let_def)
  show "bomb_vel ` set (bombs (update_sprites ks g)) \<subseteq> bomb_vel ` set (bombs g)"
    by (auto simp: update_sprites_def Let_def set_map_filter dest!: Bomb_update_vel)
qed

subsection \<open>The shooting block\<close>




lemma shoot_loop_spec:
  "shoot_loop rd target i es = Inr (es', bs) \<Longrightarrow>
   length es' = length es \<and>
   map Inr bs = map (\<lambda>e. Bomb_init (rect_center (enemy_rect e)) target)
                  (filter (\<lambda>e. enemy_kind e = Hard \<and> shoot_timer e - 1 \<le> 0) es) \<and>
   (\<forall>j<length es.
      es' ! j =
        (if enemy_kind (es ! j) = Hard
         then (if shoot_timer (es ! j) - 1 \<le> 0 then (es ! j)\<lparr>shoot_timer := rd (i + j)\<rparr>
               else (es ! j)\<lparr>shoot_timer := shoot_timer (es ! j) - 1\<rparr>)
         else es ! j))"
proof (induction es arbitrary: i es' bs)
  case Nil
  then show ?case by simp
next
  case (Cons e es)
  from Cons.prems obtain es1 bs1 where r: "shoot_loop rd target (Suc i) es = Inr (es1, bs1)"
    by (auto simp: Let_def split: if_splits sum.splits)
  note ih = Cons.IH[OF r]
  have nth: "\<And>j P. (\<forall>j<Suc (length es). P j) \<longleftrightarrow> P 0 \<and> (\<forall>j<length es. P (Suc j))"
    by (auto simp: less_Suc_eq_0_disj)
  show ?case
  proof (cases "enemy_kind e = Hard")
    case False
    with Cons.prems r have "es' = e # es1" "bs = bs1" by auto
    with False ih show ?thesis by (simp add: nth)
  next
    case True
    show ?thesis
    proof (cases "shoot_timer e - 1 \<le> 0")
      case False
      with True Cons.prems r have "es' = e\<lparr>shoot_timer := shoot_timer e - 1\<rparr> # es1" "bs = bs1"
        by (auto simp: Let_def)
      with True False ih show ?thesis by (simp add: nth)
    next
      case t: True
      with True Cons.prems r obtain b where
        b: "Bomb_init (rect_center (enemy_rect e)) target = Inr b"
        and "es' = e\<lparr>shoot_timer := rd i\<rparr> # es1" "bs = b # bs1"
        by (auto simp: Let_def split: sum.splits)
      with True t ih show ?thesis by (simp add: nth)
    qed
  qed
qed

lemma shoot_loop_hp:
  "shoot_loop rd target i es = Inr (es', bs) \<Longrightarrow> map enemy_hp es' = map enemy_hp es"
proof -
  assume "shoot_loop rd target i es = Inr (es', bs)"
  from shoot_loop_spec[OF this] show ?thesis
    by (intro nth_equalityI) (auto split: if_splits)
qed

lemma enemy_shooting_frame:
  assumes "enemy_shooting d g = Inr g'"
  shows "player g' = player g" "running g' = running g"
    "map enemy_hp (enemies g') = map enemy_hp (enemies g)"
proof -
  from assms obtain es bs where
    r: "shoot_loop (shoot_reset_draw d) (rect_center (p_rect (player g))) 0 (enemies g) = Inr (es, bs)"
    and g': "g' = g\<lparr>enemies := es, bombs := bombs g @ bs\<rparr>"
    by (auto simp: enemy_shooting_def split: sum.splits prod.splits)
  show "player g' = player g" "running g' = running g" by (simp_all add: g')
  show "map enemy_hp (enemies g') = map enemy_hp (enemies g)"
    using shoot_loop_hp[OF r] by (simp add: g')
qed

subsection \<open>The collision blocks\<close>

lemma hit_step_frame:
  "lives (player (hit_step proj g)) = lives (player g)"
  "running (hit_step proj g) = running g"
  "bombs (hit_step proj g) = bombs g"
  by (simp_all add: hit_step_def Let_def split: option.splits)

lemma fold_hit_step_frame:
  "lives (player (fold hit_step ps g)) = lives (player g) \<and>
   running (fold hit_step ps g) = running g \<and>
   bombs (fold hit_step ps g) = bombs g"
  by (induction ps arbitrary: g) (simp_all add: hit_step_frame)

lemma hit_step_hp:
  assumes "\<forall>e\<in>set (enemies g). 0 < enemy_hp e"
  shows "\<forall>e\<in>set (enemies (hit_step proj g)). 0 < enemy_hp e"
proof (cases "spritecollideany (proj_rect proj) (map enemy_rect (enemies g))")
  case None
  with assms show ?thesis by (simp add: hit_step_def)
next
  case (Some i)
  show ?thesis
  proof (cases "enemy_hp (enemies g ! i) - 1 \<le> 0")
    case True
    then have "enemies (hit_step proj g) = kill_at i (enemies g)"
      using hit_step_hit(3)[OF Some] by simp
    with assms set_kill_at[of i "enemies g"] show ?thesis by auto
  next
    case False
    then have "enemies (hit_step proj g) =
                 (enemies g)[i := (enemies g ! i)\<lparr>enemy_hp := enemy_hp (enemies g ! i) - 1\<rparr>]"
      using hit_step_hit(4)[OF Some] by simp
    with assms False show ?thesis
      by (auto dest!: set_update_subset_insert[THEN subsetD])
  qed
qed

lemma hit_step_score:
  "score (player (hit_step proj g)) =
     score (player g) + 5 * (int (length (enemies g)) - int (length (enemies (hit_step proj g)))) \<and>
   length (enemies (hit_step proj g)) \<le> length (enemies g)"
proof (cases "spritecollideany (proj_rect proj) (map enemy_rect (enemies g))")
  case None
  then show ?thesis by (simp add: hit_step_def)
next
  case (Some i)
  then have il: "i < length (enemies g)" by (simp add: spritecollideany_Some)
  show ?thesis
  proof (cases "enemy_hp (enemies g ! i) - 1 \<le> 0")
    case True
    with hit_step_hit(3)[OF Some] length_kill_at[OF il] show ?thesis by simp
  next
    case False
    with hit_step_hit(4)[OF Some] show ?thesis by simp
  qed
qed

lemma fold_hit_step_hp:
  "\<forall>e\<in>set (enemies g). 0 < enemy_hp e \<Longrightarrow> \<forall>e\<in>set (enemies (fold hit_step ps g)). 0 < enemy_hp e"
proof (induction ps arbitrary: g)
  case Nil
  then show ?case by simp
next
  case (Cons p ps)
  from Cons.IH[OF hit_step_hp[OF Cons.prems]] show ?case by simp
qed

lemma fold_hit_step_score:
  "score (player (fold hit_step ps g)) =
     score (player g) + 5 * (int (length (enemies g)) - int (length (enemies (fold hit_step ps g)))) \<and>
   length (enemies (fold hit_step ps g)) \<le> length (enemies g)"
proof (induction ps arbitrary: g)
  case Nil
  show ?case by simp
next
  case (Cons p ps)
  from Cons.IH[of "hit_step p g"] hit_step_score[of p g] show ?case by simp
qed

lemma projectile_hits_frame:
  "lives (player (projectile_hits g)) = lives (player g)"
  "running (projectile_hits g) = running g"
  "bombs (projectile_hits g) = bombs g"
  "score (player (projectile_hits g)) =
     score (player g) + 5 * (int (length (enemies g)) - int (length (enemies (projectile_hits g))))"
  "length (enemies (projectile_hits g)) \<le> length (enemies g)"
  "\<forall>e\<in>set (enemies g). 0 < enemy_hp e \<Longrightarrow> \<forall>e\<in>set (enemies (projectile_hits g)). 0 < enemy_hp e"
  using fold_hit_step_frame[of "projectiles g" "g\<lparr>projectiles := []\<rparr>"]
        fold_hit_step_score[of "projectiles g" "g\<lparr>projectiles := []\<rparr>"]
        fold_hit_step_hp[of "g\<lparr>projectiles := []\<rparr>" "projectiles g"]
  by (simp_all add: projectile_hits_def)

lemma hit_step_crossing:
  assumes "\<forall>e\<in>set (enemies g). 0 < enemy_hp e"
  shows "(score (player (hit_step proj g)) = score (player g) + 5 \<and>
          (\<exists>i<length (enemies g). enemy_hp (enemies g ! i) = 1 \<and>
             enemies (hit_step proj g) = kill_at i (enemies g))) \<or>
         (score (player (hit_step proj g)) = score (player g) \<and>
          length (enemies (hit_step proj g)) = length (enemies g))"
proof (cases "spritecollideany (proj_rect proj) (map enemy_rect (enemies g))")
  case None
  then show ?thesis by (simp add: hit_step_def)
next
  case (Some i)
  then have il: "i < length (enemies g)" by (simp add: spritecollideany_Some)
  then have pos: "0 < enemy_hp (enemies g ! i)" using assms by simp
  show ?thesis
  proof (cases "enemy_hp (enemies g ! i) - 1 \<le> 0")
    case True
    with pos have "enemy_hp (enemies g ! i) = 1" by simp
    with hit_step_hit(3)[OF Some] il show ?thesis by auto
  next
    case False
    with hit_step_hit(4)[OF Some] show ?thesis by simp
  qed
qed

lemma bombs_hit_player_frame:
  "score (player (bombs_hit_player g)) = score (player g)"
  "enemies (bombs_hit_player g) = enemies g"
  "lives (player g) - 1 \<le> lives (player (bombs_hit_player g))"
  "lives (player (bombs_hit_player g)) \<le> lives (player g)"
  "running (bombs_hit_player g) \<Longrightarrow> running g"
  "running (bombs_hit_player g) \<Longrightarrow>
     lives (player (bombs_hit_player g)) = lives (player g) \<or> 0 < lives (player (bombs_hit_player g))"
  "set (bombs (bombs_hit_player g)) \<subseteq> set (bombs g)"
  using set_kill_at[of _ "bombs g"]
  by (auto simp: bombs_hit_player_def Let_def split: option.splits if_splits)

lemma enemies_collide_player_frame:
  "score (player (enemies_collide_player g)) = score (player g)"
  "bombs (enemies_collide_player g) = bombs g"
  "set (enemies (enemies_collide_player g)) \<subseteq> set (enemies g)"
  "lives (player g) - 1 \<le> lives (player (enemies_collide_player g))"
  "lives (player (enemies_collide_player g)) \<le> lives (player g)"
  "running (enemies_collide_player g) \<Longrightarrow> running g"
  "running (enemies_collide_player g) \<Longrightarrow>
     lives (player (enemies_collide_player g)) = lives (player g)
     \<or> 0 < lives (player (enemies_collide_player g))"
  using set_kill_at[of _ "enemies g"]
  by (auto simp: enemies_collide_player_def Let_def split: option.splits if_splits)

subsection \<open>The projectile block as a whole\<close>

lemma hit_step_hit_eq:
  assumes "spritecollideany (proj_rect proj) (map enemy_rect (enemies g)) = Some i"
  shows "hit_step proj g =
           (if enemy_hp (enemies g ! i) - 1 \<le> 0
            then g\<lparr>enemies := kill_at i (enemies g),
                   explosions := explosions g @
                     [Explosion_init (rect_center (proj_rect proj)) (proj_radius proj * 2)
                        (proj_color proj)],
                   player := (player g)\<lparr>score := score (player g) + 5\<rparr>\<rparr>
            else g\<lparr>enemies := (enemies g)[i := (enemies g ! i)\<lparr>enemy_hp := enemy_hp (enemies g ! i) - 1\<rparr>],
                   explosions := explosions g @
                     [Explosion_init (rect_center (proj_rect proj)) (proj_radius proj * 2)
                        (proj_color proj)]\<rparr>)"
  using assms by (simp add: hit_step_def Let_def kill_at_def)

lemma hit_step_rects:
  "enemy_rect ` set (enemies (hit_step proj g)) \<subseteq> enemy_rect ` set (enemies g)"
proof (cases "spritecollideany (proj_rect proj) (map enemy_rect (enemies g))")
  case None
  then show ?thesis by (simp add: hit_step_def)
next
  case (Some i)
  then have il: "i < length (enemies g)" by (simp add: spritecollideany_Some)
  show ?thesis
  proof (cases "enemy_hp (enemies g ! i) - 1 \<le> 0")
    case True
    with hit_step_hit(3)[OF Some] set_kill_at[of i "enemies g"] show ?thesis by auto
  next
    case False
    let ?e = "(enemies g ! i)\<lparr>enemy_hp := enemy_hp (enemies g ! i) - 1\<rparr>"
    from False hit_step_hit(4)[OF Some]
    have "set (enemies (hit_step proj g)) \<subseteq> insert ?e (set (enemies g))"
      using set_update_subset_insert[of "enemies g" i ?e] by simp
    moreover have "enemy_rect ?e \<in> enemy_rect ` set (enemies g)"
      using il by (auto intro!: image_eqI[of _ _ "enemies g ! i"])
    ultimately show ?thesis by auto
  qed
qed

lemma fold_hit_step_rects:
  "enemy_rect ` set (enemies (fold hit_step ps g)) \<subseteq> enemy_rect ` set (enemies g)"
proof (induction ps arbitrary: g)
  case Nil
  show ?case by simp
next
  case (Cons p ps)
  from Cons.IH[of "hit_step p g"] hit_step_rects[of p g] show ?case by auto
qed

lemma fold_hit_step_survivors:
  "q \<in> set (projectiles (fold hit_step ps g)) \<Longrightarrow>
   q \<in> set (projectiles g) \<or>
   (\<forall>e\<in>set (enemies (fold hit_step ps g)). \<not> colliderect (proj_rect q) (enemy_rect e))"
proof (induction ps arbitrary: g)
  case Nil
  then show ?case by simp
next
  case (Cons p ps)
  let ?h = "hit_step p g"
  from Cons.prems have "q \<in> set (projectiles (fold hit_step ps ?h))" by simp
  from Cons.IH[OF this] show ?case
  proof
    assume q: "q \<in> set (projectiles ?h)"
    show ?thesis
    proof (cases "q \<in> set (projectiles g)")
      case True
      then show ?thesis by simp
    next
      case False
      with q hit_step_projectiles[of p g]
      have kept: "projectiles ?h = projectiles g @ [p]" and qp: "q = p" by auto
      have miss: "spritecollideany (proj_rect p) (map enemy_rect (enemies g)) = None"
      proof (rule ccontr)
        assume "spritecollideany (proj_rect p) (map enemy_rect (enemies g)) \<noteq> None"
        then obtain i where "spritecollideany (proj_rect p) (map enemy_rect (enemies g)) = Some i"
          by auto
        from hit_step_hit(1)[OF this] kept show False by simp
      qed
      then have "\<forall>r\<in>enemy_rect ` set (enemies g). \<not> colliderect (proj_rect p) r"
        by (simp add: spritecollideany_None)
      moreover have "enemy_rect ` set (enemies (fold hit_step ps ?h)) \<subseteq> enemy_rect ` set (enemies g)"
        using fold_hit_step_rects[of ps ?h] hit_step_rects[of p g] by auto
      ultimately show ?thesis using qp by auto
    qed
  next
    assume "\<forall>e\<in>set (enemies (fold hit_step ps ?h)). \<not> colliderect (proj_rect q) (enemy_rect e)"
    then show ?thesis by simp
  qed
qed

lemma projectile_hits_survivors:
  "\<forall>q\<in>set (projectiles (projectile_hits g)). \<forall>e\<in>set (enemies (projectile_hits g)).
     \<not> colliderect (proj_rect q) (enemy_rect e)"
  using fold_hit_step_survivors[of _ "projectiles g" "g\<lparr>projectiles := []\<rparr>"]
  by (auto simp: projectile_hits_def)

lemma fold_hit_step_all_miss:
  "\<forall>p\<in>set ps. \<forall>e\<in>set (enemies g). \<not> colliderect (proj_rect p) (enemy_rect e) \<Longrightarrow>
   fold hit_step ps g = g\<lparr>projectiles := projectiles g @ ps\<rparr>"
proof (induction ps arbitrary: g)
  case Nil
  show ?case by simp
next
  case (Cons p ps)
  from Cons.prems have "spritecollideany (proj_rect p) (map enemy_rect (enemies g)) = None"
    by (simp add: spritecollideany_None)
  then have h: "hit_step p g = g\<lparr>projectiles := projectiles g @ [p]\<rparr>" by (rule hit_step_miss)
  have "fold hit_step ps (hit_step p g) =
          (hit_step p g)\<lparr>projectiles := projectiles (hit_step p g) @ ps\<rparr>"
    using Cons.prems by (intro Cons.IH) (simp add: h)
  then show ?case by (simp add: h)
qed

lemma projectile_hits_all_miss:
  "\<forall>p\<in>set (projectiles g). \<forall>e\<in>set (enemies g). \<not> colliderect (proj_rect p) (enemy_rect e) \<Longrightarrow>
   projectile_hits g = g"
  using fold_hit_step_all_miss[of "projectiles g" "g\<lparr>projectiles := []\<rparr>"]
  by (simp add: projectile_hits_def)

lemma fold_hit_step_explosions:
  "\<exists>hits. subseq hits ps \<and>
     explosions (fold hit_step ps g) =
       explosions g @ map (\<lambda>p. Explosion_init (rect_center (proj_rect p)) (proj_radius p * 2)
                                 (proj_color p)) hits"
proof (induction ps arbitrary: g)
  case Nil
  show ?case by simp
next
  case (Cons p ps)
  let ?X = "\<lambda>p. Explosion_init (rect_center (proj_rect p)) (proj_radius p * 2) (proj_color p)"
  from Cons.IH[of "hit_step p g"] obtain hits where
    hits: "subseq hits ps"
          "explosions (fold hit_step ps (hit_step p g)) = explosions (hit_step p g) @ map ?X hits"
    by blast
  show ?case
  proof (cases "spritecollideany (proj_rect p) (map enemy_rect (enemies g))")
    case None
    then have "explosions (hit_step p g) = explosions g" by (simp add: hit_step_def)
    with hits show ?thesis by (auto intro!: exI[of _ hits])
  next
    case (Some i)
    from hit_step_hit(2)[OF Some] hits show ?thesis
      by (auto intro!: exI[of _ "p # hits"])
  qed
qed

lemma projectile_hits_explosions:
  "\<exists>hits. subseq hits (projectiles g) \<and>
     explosions (projectile_hits g) =
       explosions g @ map (\<lambda>p. Explosion_init (rect_center (proj_rect p)) (proj_radius p * 2)
                                 (proj_color p)) hits \<and>
     length hits + length (projectiles (projectile_hits g)) = length (projectiles g)"
proof -
  from fold_hit_step_explosions[of "projectiles g" "g\<lparr>projectiles := []\<rparr>"]
  obtain hits where h: "subseq hits (projectiles g)"
    "explosions (projectile_hits g) =
       explosions g @ map (\<lambda>p. Explosion_init (rect_center (proj_rect p)) (proj_radius p * 2)
                                 (proj_color p)) hits"
    by (auto simp: projectile_hits_def)
  with projectile_hits_count[of g] show ?thesis by (intro exI[of _ hits]) simp
qed

lemma zero_damage:
  "\<forall>e\<in>set es. 0 < enemy_hp e \<Longrightarrow>
   map (\<lambda>(e, d). e\<lparr>enemy_hp := enemy_hp e - int d\<rparr>)
       (filter (\<lambda>(e, d). int d < enemy_hp e) (zip es (replicate (length es) 0))) = es \<and>
   filter (\<lambda>(e, d). \<not> int d < enemy_hp e) (zip es (replicate (length es) 0)) = [] \<and>
   list_all2 (\<lambda>e d. int d \<le> enemy_hp e) es (replicate (length es) 0)"
proof (induction es)
  case Nil
  show ?case by simp
next
  case (Cons e es)
  then show ?case by (simp add: replicate_Suc[symmetric] del: replicate_Suc) (simp add: less_imp_le)
qed

lemma fold_hit_step_damage:
  fixes D :: "enemy list \<Rightarrow> nat list \<Rightarrow> enemy list"
    and K :: "enemy list \<Rightarrow> nat list \<Rightarrow> (enemy \<times> nat) list"
  defines "D \<equiv> \<lambda>es ds. map (\<lambda>(e, d). e\<lparr>enemy_hp := enemy_hp e - int d\<rparr>)
                            (filter (\<lambda>(e, d). int d < enemy_hp e) (zip es ds))"
      and "K \<equiv> \<lambda>es ds. filter (\<lambda>(e, d). \<not> int d < enemy_hp e) (zip es ds)"
  assumes "\<forall>e\<in>set (enemies g). 0 < enemy_hp e"
  shows "\<exists>ds. list_all2 (\<lambda>e d. int d \<le> enemy_hp e) (enemies g) ds \<and>
              enemies (fold hit_step ps g) = D (enemies g) ds \<and>
              score (player (fold hit_step ps g)) = score (player g) + 5 * int (length (K (enemies g) ds)) \<and>
              length (explosions (fold hit_step ps g)) = length (explosions g) + sum_list ds"
  using assms(3)
proof (induction ps arbitrary: g)
  case Nil
  from zero_damage[OF Nil] show ?case
    by (intro exI[of _ "replicate (length (enemies g)) 0"]) (simp add: D_def K_def)
next
  case (Cons p ps)
  let ?h = "hit_step p g"
  let ?es = "enemies g"
  have inv: "\<forall>e\<in>set (enemies ?h). 0 < enemy_hp e" using hit_step_hp[OF Cons.prems] .
  from Cons.IH[OF inv] obtain ds1 where
    b1: "list_all2 (\<lambda>e d. int d \<le> enemy_hp e) (enemies ?h) ds1"
    and e1: "enemies (fold hit_step ps ?h) = D (enemies ?h) ds1"
    and s1: "score (player (fold hit_step ps ?h)) = score (player ?h) + 5 * int (length (K (enemies ?h) ds1))"
    and x1: "length (explosions (fold hit_step ps ?h)) = length (explosions ?h) + sum_list ds1"
    by blast
  have app: "\<And>xs ys us vs. length xs = length us \<Longrightarrow>
               D (xs @ ys) (us @ vs) = D xs us @ D ys vs \<and> K (xs @ ys) (us @ vs) = K xs us @ K ys vs"
    by (simp add: D_def K_def)
  show ?case
  proof (cases "spritecollideany (proj_rect p) (map enemy_rect ?es)")
    case None
    then have "?h = g\<lparr>projectiles := projectiles g @ [p]\<rparr>" by (rule hit_step_miss)
    then have "enemies ?h = ?es" "score (player ?h) = score (player g)"
              "explosions ?h = explosions g" by simp_all
    with b1 e1 s1 x1 show ?thesis by (intro exI[of _ ds1]) simp
  next
    case (Some i)
    then have il: "i < length ?es" by (simp add: spritecollideany_Some)
    let ?e = "?es ! i"
    have pos: "0 < enemy_hp ?e" using Cons.prems il by simp
    have split: "?es = take i ?es @ ?e # drop (Suc i) ?es" using il by (rule id_take_nth_drop)
    have li: "length (take i ?es) = i" using il by simp
    have xh: "length (explosions ?h) = Suc (length (explosions g))"
      using hit_step_hit(2)[OF Some] by simp
    show ?thesis
    proof (cases "enemy_hp ?e - 1 \<le> 0")
      case True
      with pos have hp1: "enemy_hp ?e = 1" by simp
      from True hit_step_hit(3)[OF Some]
      have eh: "enemies ?h = take i ?es @ drop (Suc i) ?es"
        and sh: "score (player ?h) = score (player g) + 5" by (simp_all add: kill_at_def)
      from b1[unfolded eh list_all2_append1] obtain us vs where
        ds1: "ds1 = us @ vs" and lu: "length us = length (take i ?es)"
        and bu: "list_all2 (\<lambda>e d. int d \<le> enemy_hp e) (take i ?es) us"
        and bv: "list_all2 (\<lambda>e d. int d \<le> enemy_hp e) (drop (Suc i) ?es) vs"
        by blast
      let ?ds = "us @ 1 # vs"
      have "list_all2 (\<lambda>e d. int d \<le> enemy_hp e) (take i ?es @ ?e # drop (Suc i) ?es) ?ds"
        using bu bv hp1 by (intro list_all2_appendI) simp_all
      then have b: "list_all2 (\<lambda>e d. int d \<le> enemy_hp e) ?es ?ds" using split by simp
      have dk: "D ?es ?ds = D (enemies ?h) ds1"
               "length (K ?es ?ds) = Suc (length (K (enemies ?h) ds1))"
        unfolding eh ds1 by (subst split, simp add: D_def K_def lu hp1)+
      show ?thesis
        using b e1 s1 x1 dk sh xh by (intro exI[of _ ?ds]) (simp add: ds1)
    next
      case False
      let ?e' = "?e\<lparr>enemy_hp := enemy_hp ?e - 1\<rparr>"
      from False hit_step_hit(4)[OF Some]
      have eh: "enemies ?h = take i ?es @ ?e' # drop (Suc i) ?es"
        and sh: "score (player ?h) = score (player g)"
        using il by (simp_all add: upd_conv_take_nth_drop)
      from b1[unfolded eh list_all2_append1] obtain us ws where
        ds1: "ds1 = us @ ws" and lu: "length us = length (take i ?es)"
        and bu: "list_all2 (\<lambda>e d. int d \<le> enemy_hp e) (take i ?es) us"
        and bw: "list_all2 (\<lambda>e d. int d \<le> enemy_hp e) (?e' # drop (Suc i) ?es) ws"
        by blast
      from bw obtain d vs where ws: "ws = d # vs" and bd: "int d \<le> enemy_hp ?e'"
        and bv: "list_all2 (\<lambda>e d. int d \<le> enemy_hp e) (drop (Suc i) ?es) vs"
        by (auto simp: list_all2_Cons1)
      let ?ds = "us @ Suc d # vs"
      have "list_all2 (\<lambda>e d. int d \<le> enemy_hp e) (take i ?es @ ?e # drop (Suc i) ?es) ?ds"
        using bu bv bd by (intro list_all2_appendI) simp_all
      then have b: "list_all2 (\<lambda>e d. int d \<le> enemy_hp e) ?es ?ds" using split by simp
      have dk: "D ?es ?ds = D (enemies ?h) ds1"
               "length (K ?es ?ds) = length (K (enemies ?h) ds1)"
        unfolding eh ds1 ws by (subst split, auto simp: D_def K_def lu)+
      show ?thesis
        using b e1 s1 x1 dk sh xh by (intro exI[of _ ?ds]) (simp add: ds1 ws)
    qed
  qed
qed

lemma projectile_hits_damage:
  assumes "\<forall>e\<in>set (enemies g). 0 < enemy_hp e"
  shows "\<exists>ds. list_all2 (\<lambda>e d. int d \<le> enemy_hp e) (enemies g) ds \<and>
              enemies (projectile_hits g) =
                map (\<lambda>(e, d). e\<lparr>enemy_hp := enemy_hp e - int d\<rparr>)
                  (filter (\<lambda>(e, d). int d < enemy_hp e) (zip (enemies g) ds)) \<and>
              score (player (projectile_hits g)) =
                score (player g)
                + 5 * int (length (filter (\<lambda>(e, d). \<not> int d < enemy_hp e) (zip (enemies g) ds))) \<and>
              length (explosions (projectile_hits g)) = length (explosions g) + sum_list ds"
  using fold_hit_step_damage[of "g\<lparr>projectiles := []\<rparr>" "projectiles g"] assms
  by (simp add: projectile_hits_def)

lemma volley_pass:
  "projectile_hits volley_game =
     volley_game\<lparr>enemies := [gunner\<lparr>enemy_hp := 2\<rparr>], projectiles := [far_shot],
       explosions := [Explosion_init (450, 110) 32 NEON_PINK, Explosion_init (450, 110) 32 NEON_PINK],
       player := (player volley_game)\<lparr>score := 5\<rparr>\<rparr>"
  by (simp add: volley_game_def witness_defs init_game_def Player_init_def eval_defs)

text \<open>
  C4. The projectile block is the loop body \<open>hit_step\<close> run once for every projectile of the
  group, in order. In the loop body, a projectile that collides with no enemy is kept and
  nothing else changes. A projectile that collides is resolved against the first colliding
  enemy in the order of the group: the enemy loses exactly 1 hp, an explosion is added at
  the centre of the projectile's rect with twice the projectile's radius, and the projectile
  is removed; if the enemy's hp is then \<open>\<le> 0\<close> the enemy is removed and the score grows by
  exactly 5, otherwise the enemy stays with the reduced hp and the score is unchanged;
  nothing else changes. The element of the projectile has no influence on the enemies or
  the score.

  For the block as a whole: the projectiles left are projectiles of the group before, in
  their order, and every projectile is either left or accounts for exactly one explosion of
  its own, so it hits at most once in a pass. No projectile that is left collides with an
  enemy that is left, and if no projectile collides with any enemy the block changes
  nothing. When every enemy has positive hp, every enemy takes some number \<open>d\<close> of hits of
  1 damage, at most its hp; it stays with hp minus \<open>d\<close> if that is positive and is removed
  if the hits used up its hp, with 5 points for each removed enemy and one explosion for
  each hit. Lives, bombs and the loop flag are not touched.
\<close>

theorem projectile_enemy_resolution:
  "projectile_hits g = fold hit_step (projectiles g) (g\<lparr>projectiles := []\<rparr>) \<and>
   subseq (projectiles (projectile_hits g)) (projectiles g) \<and>
   length (projectiles (projectile_hits g)) + length (explosions (projectile_hits g))
     = length (explosions g) + length (projectiles g) \<and>
   (\<exists>hits. subseq hits (projectiles g) \<and>
      explosions (projectile_hits g) =
        explosions g @ map (\<lambda>p. Explosion_init (rect_center (proj_rect p)) (proj_radius p * 2)
                                  (proj_color p)) hits \<and>
      length hits + length (projectiles (projectile_hits g)) = length (projectiles g)) \<and>
   (\<forall>q\<in>set (projectiles (projectile_hits g)). \<forall>e\<in>set (enemies (projectile_hits g)).
      \<not> colliderect (proj_rect q) (enemy_rect e)) \<and>
   ((\<forall>p\<in>set (projectiles g). \<forall>e\<in>set (enemies g). \<not> colliderect (proj_rect p) (enemy_rect e)) \<longrightarrow>
      projectile_hits g = g) \<and>
   ((\<forall>e\<in>set (enemies g). 0 < enemy_hp e) \<longrightarrow>
      (\<exists>ds. list_all2 (\<lambda>e d. int d \<le> enemy_hp e) (enemies g) ds \<and>
            enemies (projectile_hits g) =
              map (\<lambda>(e, d). e\<lparr>enemy_hp := enemy_hp e - int d\<rparr>)
                (filter (\<lambda>(e, d). int d < enemy_hp e) (zip (enemies g) ds)) \<and>
            score (player (projectile_hits g)) =
              score (player g)
              + 5 * int (length (filter (\<lambda>(e, d). \<not> int d < enemy_hp e) (zip (enemies g) ds))) \<and>
            length (explosions (projectile_hits g)) = length (explosions g) + sum_list ds)) \<and>
   lives (player (projectile_hits g)) = lives (player g) \<and>
   bombs (projectile_hits g) = bombs g \<and>
   running (projectile_hits g) = running g \<and>
   ((\<forall>e\<in>set (enemies g). \<not> colliderect (proj_rect proj) (enemy_rect e)) \<longrightarrow>
      hit_step proj g = g\<lparr>projectiles := projectiles g @ [proj]\<rparr>) \<and>
   ((\<exists>e\<in>set (enemies g). colliderect (proj_rect proj) (enemy_rect e)) \<longrightarrow>
      (\<exists>i<length (enemies g).
         colliderect (proj_rect proj) (enemy_rect (enemies g ! i)) \<and>
         (\<forall>j<i. \<not> colliderect (proj_rect proj) (enemy_rect (enemies g ! j))) \<and>
         projectiles (hit_step proj g) = projectiles g \<and>
         explosions (hit_step proj g) =
           explosions g @ [Explosion_init (rect_center (proj_rect proj)) (proj_radius proj * 2)
                             (proj_color proj)] \<and>
         (enemy_hp (enemies g ! i) - 1 \<le> 0 \<longrightarrow>
            enemies (hit_step proj g) = kill_at i (enemies g) \<and>
            score (player (hit_step proj g)) = score (player g) + 5 \<and>
            hit_step proj g =
              g\<lparr>enemies := kill_at i (enemies g),
                explosions := explosions g @
                  [Explosion_init (rect_center (proj_rect proj)) (proj_radius proj * 2)
                     (proj_color proj)],
                player := (player g)\<lparr>score := score (player g) + 5\<rparr>\<rparr>) \<and>
         (\<not> enemy_hp (enemies g ! i) - 1 \<le> 0 \<longrightarrow>
            enemies (hit_step proj g) =
              (enemies g)[i := (enemies g ! i)\<lparr>enemy_hp := enemy_hp (enemies g ! i) - 1\<rparr>] \<and>
            score (player (hit_step proj g)) = score (player g) \<and>
            hit_step proj g =
              g\<lparr>enemies :=
                  (enemies g)[i := (enemies g ! i)\<lparr>enemy_hp := enemy_hp (enemies g ! i) - 1\<rparr>],
                explosions := explosions g @
                  [Explosion_init (rect_center (proj_rect proj)) (proj_radius proj * 2)
                     (proj_color proj)]\<rparr>))) \<and>
   (\<forall>el. enemies (hit_step (proj\<lparr>proj_element := el\<rparr>) g) = enemies (hit_step proj g) \<and>
         score (player (hit_step (proj\<lparr>proj_element := el\<rparr>) g)) = score (player (hit_step proj g)))"
proof -
  have a: "projectile_hits g = fold hit_step (projectiles g) (g\<lparr>projectiles := []\<rparr>)"
    by (rule projectile_hits_def)
  note b = projectile_hits_kept[of g]
  note c = projectile_hits_count[of g]
  note d = projectile_hits_explosions[of g]
  note e = projectile_hits_survivors[of g]
  have f: "(\<forall>p\<in>set (projectiles g). \<forall>e\<in>set (enemies g). \<not> colliderect (proj_rect p) (enemy_rect e)) \<longrightarrow>
      projectile_hits g = g"
    using projectile_hits_all_miss by blast
  have h: "(\<forall>e\<in>set (enemies g). 0 < enemy_hp e) \<longrightarrow>
      (\<exists>ds. list_all2 (\<lambda>e d. int d \<le> enemy_hp e) (enemies g) ds \<and>
            enemies (projectile_hits g) =
              map (\<lambda>(e, d). e\<lparr>enemy_hp := enemy_hp e - int d\<rparr>)
                (filter (\<lambda>(e, d). int d < enemy_hp e) (zip (enemies g) ds)) \<and>
            score (player (projectile_hits g)) =
              score (player g)
              + 5 * int (length (filter (\<lambda>(e, d). \<not> int d < enemy_hp e) (zip (enemies g) ds))) \<and>
            length (explosions (projectile_hits g)) = length (explosions g) + sum_list ds)"
    using projectile_hits_damage by blast
  note fr = projectile_hits_frame(1,3,2)[of g]
  have m: "(\<forall>e\<in>set (enemies g). \<not> colliderect (proj_rect proj) (enemy_rect e)) \<longrightarrow>
      hit_step proj g = g\<lparr>projectiles := projectiles g @ [proj]\<rparr>"
    by (simp add: spritecollideany_None hit_step_miss)
  have k: "(\<exists>e\<in>set (enemies g). colliderect (proj_rect proj) (enemy_rect e)) \<longrightarrow>
      (\<exists>i<length (enemies g).
         colliderect (proj_rect proj) (enemy_rect (enemies g ! i)) \<and>
         (\<forall>j<i. \<not> colliderect (proj_rect proj) (enemy_rect (enemies g ! j))) \<and>
         projectiles (hit_step proj g) = projectiles g \<and>
         explosions (hit_step proj g) =
           explosions g @ [Explosion_init (rect_center (proj_rect proj)) (proj_radius proj * 2)
                             (proj_color proj)] \<and>
         (enemy_hp (enemies g ! i) - 1 \<le> 0 \<longrightarrow>
            enemies (hit_step proj g) = kill_at i (enemies g) \<and>
            score (player (hit_step proj g)) = score (player g) + 5 \<and>
            hit_step proj g =
              g\<lparr>enemies := kill_at i (enemies g),
                explosions := explosions g @
                  [Explosion_init (rect_center (proj_rect proj)) (proj_radius proj * 2)
                     (proj_color proj)],
                player := (player g)\<lparr>score := score (player g) + 5\<rparr>\<rparr>) \<and>
         (\<not> enemy_hp (enemies g ! i) - 1 \<le> 0 \<longrightarrow>
            enemies (hit_step proj g) =
              (enemies g)[i := (enemies g ! i)\<lparr>enemy_hp := enemy_hp (enemies g ! i) - 1\<rparr>] \<and>
            score (player (hit_step proj g)) = score (player g) \<and>
            hit_step proj g =
              g\<lparr>enemies :=
                  (enemies g)[i := (enemies g ! i)\<lparr>enemy_hp := enemy_hp (enemies g ! i) - 1\<rparr>],
                explosions := explosions g @
                  [Explosion_init (rect_center (proj_rect proj)) (proj_radius proj * 2)
                     (proj_color proj)]\<rparr>))"
  proof
    assume "\<exists>e\<in>set (enemies g). colliderect (proj_rect proj) (enemy_rect e)"
    then have "spritecollideany (proj_rect proj) (map enemy_rect (enemies g)) \<noteq> None"
      by (simp add: spritecollideany_None)
    then obtain i where i: "spritecollideany (proj_rect proj) (map enemy_rect (enemies g)) = Some i"
      by auto
    then have g: "i < length (enemies g)"
        "colliderect (proj_rect proj) (enemy_rect (enemies g ! i))"
        "\<forall>j<i. \<not> colliderect (proj_rect proj) (enemy_rect (enemies g ! j))"
      by (auto simp: spritecollideany_Some)
    show "\<exists>i<length (enemies g).
         colliderect (proj_rect proj) (enemy_rect (enemies g ! i)) \<and>
         (\<forall>j<i. \<not> colliderect (proj_rect proj) (enemy_rect (enemies g ! j))) \<and>
         projectiles (hit_step proj g) = projectiles g \<and>
         explosions (hit_step proj g) =
           explosions g @ [Explosion_init (rect_center (proj_rect proj)) (proj_radius proj * 2)
                             (proj_color proj)] \<and>
         (enemy_hp (enemies g ! i) - 1 \<le> 0 \<longrightarrow>
            enemies (hit_step proj g) = kill_at i (enemies g) \<and>
            score (player (hit_step proj g)) = score (player g) + 5 \<and>
            hit_step proj g =
              g\<lparr>enemies := kill_at i (enemies g),
                explosions := explosions g @
                  [Explosion_init (rect_center (proj_rect proj)) (proj_radius proj * 2)
                     (proj_color proj)],
                player := (player g)\<lparr>score := score (player g) + 5\<rparr>\<rparr>) \<and>
         (\<not> enemy_hp (enemies g ! i) - 1 \<le> 0 \<longrightarrow>
            enemies (hit_step proj g) =
              (enemies g)[i := (enemies g ! i)\<lparr>enemy_hp := enemy_hp (enemies g ! i) - 1\<rparr>] \<and>
            score (player (hit_step proj g)) = score (player g) \<and>
            hit_step proj g =
              g\<lparr>enemies :=
                  (enemies g)[i := (enemies g ! i)\<lparr>enemy_hp := enemy_hp (enemies g ! i) - 1\<rparr>],
                explosions := explosions g @
                  [Explosion_init (rect_center (proj_rect proj)) (proj_radius proj * 2)
                     (proj_color proj)]\<rparr>)"
      using g hit_step_hit(1-4)[OF i] hit_step_hit_eq[OF i] by (intro exI[of _ i]) simp
  qed
  have el: "\<forall>el. enemies (hit_step (proj\<lparr>proj_element := el\<rparr>) g) = enemies (hit_step proj g) \<and>
         score (player (hit_step (proj\<lparr>proj_element := el\<rparr>) g)) = score (player (hit_step proj g))"
    using hit_step_element by blast
  from a b c d e f h fr m k el show ?thesis by (intro conjI)
qed

theorem projectile_enemy_resolution_witness:
  "colliderect (proj_rect near_shot) (enemy_rect grunt) \<and>
   enemies (hit_step near_shot grunt_game) = [] \<and>
   score (player (hit_step near_shot grunt_game)) = 5 \<and>
   projectiles (hit_step near_shot grunt_game) = [] \<and>
   length (explosions (hit_step near_shot grunt_game)) = 1 \<and>
   \<not> colliderect (proj_rect far_shot) (enemy_rect grunt) \<and>
   hit_step far_shot grunt_game = grunt_game\<lparr>projectiles := [far_shot]\<rparr> \<and>
   colliderect (proj_rect near_shot) (enemy_rect gunner) \<and>
   enemies (hit_step near_shot brute_game) = [gunner\<lparr>enemy_hp := 2\<rparr>] \<and>
   score (player (hit_step near_shot brute_game)) = 0 \<and>
   projectiles (hit_step near_shot brute_game) = [] \<and>
   enemies volley_game = [grunt, gunner] \<and> 0 < enemy_hp grunt \<and> 0 < enemy_hp gunner \<and>
   projectiles volley_game = [near_shot, far_shot, near_shot] \<and>
   projectile_hits volley_game =
     fold hit_step [near_shot, far_shot, near_shot] (volley_game\<lparr>projectiles := []\<rparr>) \<and>
   enemies (projectile_hits volley_game) = [gunner\<lparr>enemy_hp := 2\<rparr>] \<and>
   projectiles (projectile_hits volley_game) = [far_shot] \<and>
   score (player (projectile_hits volley_game)) = 5 \<and>
   length (explosions (projectile_hits volley_game)) = 2"
  using projectile_enemy_resolution[of grunt_game near_shot]
        projectile_enemy_resolution[of grunt_game far_shot]
        projectile_enemy_resolution[of brute_game near_shot]
        projectile_enemy_resolution[of volley_game near_shot, THEN conjunct1]
        volley_pass
  by (simp add: witness_defs volley_game_def init_game_def Player_init_def eval_defs)

subsection \<open>Bombs\<close>






subsection \<open>One pass and the loop\<close>

lemma advance_frame:
  assumes "advance inp g = Inr g4"
  shows "lives (player g4) = lives (player g)"
    and "score (player g4) = score (player g)"
    and "running g4 \<Longrightarrow> running g"
    and "\<forall>e\<in>set (enemies g). 0 < enemy_hp e \<Longrightarrow> \<forall>e\<in>set (enemies g4). 0 < enemy_hp e"
proof -
  let ?g1 = "fold handle_event (in_events inp) g"
  from assms obtain g2 where g2: "spawn_logic (in_draws inp) ?g1 = Inr g2"
    and g4: "enemy_shooting (in_draws inp) (update_sprites (in_keys inp) g2) = Inr g4"
    by (auto simp: advance_def Let_def split: sum.splits)
  note e = fold_handle_event_frame[of "in_events inp" g]
  note s = spawn_logic_frame[OF g2]
  note u = update_sprites_frame[where ks = "in_keys inp" and g = g2]
  note h = enemy_shooting_frame[OF g4]
  show "lives (player g4) = lives (player g)" using e s(1) u(1) h(1) by simp
  show "score (player g4) = score (player g)" using e s(1) u(2) h(1) by simp
  show "running g4 \<Longrightarrow> running g" using e s(3) u(3) h(2) by simp
  assume "\<forall>e\<in>set (enemies g). 0 < enemy_hp e"
  then have "\<forall>e\<in>set (enemies ?g1). 0 < enemy_hp e" using e by simp
  then have "\<forall>e\<in>set (enemies (update_sprites (in_keys inp) g2)). 0 < enemy_hp e"
    using s(4) u(4) by simp
  then have "\<forall>h\<in>set (map enemy_hp (enemies (update_sprites (in_keys inp) g2))). 0 < h"
    by simp
  then have "\<forall>h\<in>set (map enemy_hp (enemies g4)). 0 < h" using h(3) by simp
  then show "\<forall>e\<in>set (enemies g4). 0 < enemy_hp e" by simp
qed

lemma resolve_lives:
  "lives (player g) - 2 \<le> lives (player (resolve g))"
  "lives (player (resolve g)) \<le> lives (player g)"
  "running (resolve g) \<Longrightarrow> running g"
  "running (resolve g) \<Longrightarrow> 0 < lives (player g) \<Longrightarrow> 0 < lives (player (resolve g))"
  "0 < lives (player g) \<Longrightarrow> - 1 \<le> lives (player (resolve g))"
proof -
  let ?a = "projectile_hits g"
  let ?b = "bombs_hit_player ?a"
  note p = projectile_hits_frame(1,2)[of g]
  note b = bombs_hit_player_frame(3-6)[of ?a]
  note c = enemies_collide_player_frame(4-7)[of ?b]
  show "lives (player g) - 2 \<le> lives (player (resolve g))"
    using p b c by (simp add: resolve_def)
  show "lives (player (resolve g)) \<le> lives (player g)"
    using p b c by (simp add: resolve_def)
  show "running (resolve g) \<Longrightarrow> running g"
    using p b c by (simp add: resolve_def)
  show "running (resolve g) \<Longrightarrow> 0 < lives (player g) \<Longrightarrow> 0 < lives (player (resolve g))"
    using p b c by (auto simp: resolve_def)
  show "0 < lives (player g) \<Longrightarrow> - 1 \<le> lives (player (resolve g))"
    using p b c by (simp add: resolve_def)
qed

lemma tick_lives:
  assumes "tick inp g = Inr g'"
  shows "lives (player g) - 2 \<le> lives (player g')"
    and "lives (player g') \<le> lives (player g)"
    and "running g' \<Longrightarrow> running g"
    and "running g' \<Longrightarrow> 0 < lives (player g) \<Longrightarrow> 0 < lives (player g')"
    and "0 < lives (player g) \<Longrightarrow> - 1 \<le> lives (player g')"
proof -
  from assms obtain g4 where a: "advance inp g = Inr g4" and g': "g' = resolve g4"
    by (auto simp: tick_def split: sum.splits)
  note f = advance_frame(1,3)[OF a]
  note r = resolve_lives[of g4]
  show "lives (player g) - 2 \<le> lives (player g')" using f r by (simp add: g')
  show "lives (player g') \<le> lives (player g)" using f r by (simp add: g')
  show "running g' \<Longrightarrow> running g" using f r by (simp add: g')
  show "running g' \<Longrightarrow> 0 < lives (player g) \<Longrightarrow> 0 < lives (player g')" using f r by (simp add: g')
  show "0 < lives (player g) \<Longrightarrow> - 1 \<le> lives (player g')" using f r by (simp add: g')
qed

lemma run_lives:
  "lives_inv g \<Longrightarrow> run inps g = Inr g' \<Longrightarrow> lives_inv g' \<and> lives (player g') \<le> lives (player g)"
proof (induction inps arbitrary: g)
  case Nil
  then show ?case by simp
next
  case (Cons inp inps)
  show ?case
  proof (cases "running g")
    case False
    with Cons.prems show ?thesis by simp
  next
    case True
    with Cons.prems obtain g1 where t: "tick inp g = Inr g1" and r: "run inps g1 = Inr g'"
      by (auto split: sum.splits)
    from True Cons.prems(1) have pos: "0 < lives (player g)" by (simp add: lives_inv_def)
    have "lives_inv g1"
      using tick_lives(2,4,5)[OF t] pos Cons.prems(1) by (auto simp: lives_inv_def)
    from Cons.IH[OF this r] tick_lives(2)[OF t] show ?thesis by simp
  qed
qed

lemma run_append:
  "run (inps @ rest) g = (case run inps g of Inl err \<Rightarrow> Inl err | Inr g' \<Rightarrow> run rest g')"
proof (induction inps arbitrary: g)
  case Nil
  show ?case by simp
next
  case (Cons inp inps)
  show ?case
  proof (cases "running g")
    case True
    then show ?thesis by (simp add: Cons.IH split: sum.splits)
  next
    case False
    then show ?thesis by (cases rest) simp_all
  qed
qed

lemma run_stopped: "\<not> running g \<Longrightarrow> run inps g = Inr g"
  by (cases inps) simp_all

lemma init_lives_inv: "lives_inv init_game"
  by (simp add: lives_inv_def init_game_def Player_init_def)

subsection \<open>Score\<close>

lemma tick_hp:
  assumes "\<forall>e\<in>set (enemies g). 0 < enemy_hp e" and "tick inp g = Inr g'"
  shows "\<forall>e\<in>set (enemies g'). 0 < enemy_hp e"
proof -
  from assms(2) obtain g4 where a: "advance inp g = Inr g4" and g': "g' = resolve g4"
    by (auto simp: tick_def split: sum.splits)
  have "\<forall>e\<in>set (enemies g4). 0 < enemy_hp e" using advance_frame(4)[OF a] assms(1) by simp
  then have hpp: "\<forall>e\<in>set (enemies (projectile_hits g4)). 0 < enemy_hp e"
    using projectile_hits_frame(6) by simp
  have "set (enemies g') \<subseteq> set (enemies (projectile_hits g4))"
    using enemies_collide_player_frame(3)[of "bombs_hit_player (projectile_hits g4)"]
    by (simp add: g' resolve_def bombs_hit_player_frame(2))
  with hpp show ?thesis by blast
qed

lemma run_hp:
  "\<forall>e\<in>set (enemies g). 0 < enemy_hp e \<Longrightarrow> run inps g = Inr g' \<Longrightarrow>
   \<forall>e\<in>set (enemies g'). 0 < enemy_hp e"
proof (induction inps arbitrary: g)
  case Nil
  then show ?case by simp
next
  case (Cons inp inps)
  show ?case
  proof (cases "running g")
    case False
    with Cons.prems show ?thesis by simp
  next
    case True
    with Cons.prems obtain g1 where t: "tick inp g = Inr g1" and r: "run inps g1 = Inr g'"
      by (auto split: sum.splits)
    from Cons.IH[OF tick_hp[OF Cons.prems(1) t] r] show ?thesis .
  qed
qed

lemma run_enemies_alive: "run inps init_game = Inr g \<Longrightarrow> \<forall>e\<in>set (enemies g). 0 < enemy_hp e"
  using run_hp[of init_game inps g] by (simp add: init_game_def)

lemma duel_tick:
  "\<exists>g'. tick idle duel_game = Inr g' \<and> score (player g') = 5 \<and> enemies g' = [] \<and>
        projectiles g' = []"
  by (simp add: witness_defs draws_a_def init_game_def Player_init_def eval_defs)

text \<open>
  C8. Let every enemy of the state have positive hp, as it is in every state that the loop
  reaches from the start (\<open>run_enemies_alive\<close>), and let a pass of the loop succeed. Then the
  score does not decrease and every enemy left has positive hp again. The pass is \<open>advance\<close>,
  which leaves the score alone and ends in a state \<open>g4\<close>, followed by the projectile block,
  the bomb block and the enemy block. In the projectile block, which is the loop body
  \<open>hit_step\<close> run for every projectile, every enemy of \<open>g4\<close> takes some number \<open>d\<close> of hits
  of 1 damage, at most its hp: the enemies with \<open>d\<close> below their hp stay, with hp minus \<open>d\<close>,
  and exactly the enemies whose hits used up their hp, so that it went from a positive
  value to 0, are removed. The score after the pass is the score before plus exactly 5 for
  each of these enemies. In one run of the loop body, one projectile either removes one
  enemy, whose hp was 1 and dropped to 0, and adds exactly 5, or removes no enemy and adds
  nothing. The bomb block and the enemy block, which removes the enemy that rams the player
  whatever its hp, do not change the score.
\<close>

theorem score_per_kill:
  assumes "\<forall>e\<in>set (enemies g). 0 < enemy_hp e" and "tick inp g = Inr g'"
  shows "score (player g) \<le> score (player g') \<and>
         (\<forall>e\<in>set (enemies g'). 0 < enemy_hp e) \<and>
         (\<exists>g4. advance inp g = Inr g4 \<and> g' = resolve g4 \<and>
               resolve g4 = enemies_collide_player (bombs_hit_player (projectile_hits g4)) \<and>
               (\<forall>e\<in>set (enemies g4). 0 < enemy_hp e) \<and>
               score (player g4) = score (player g) \<and>
               length (enemies (projectile_hits g4)) \<le> length (enemies g4) \<and>
               score (player g') =
                 score (player g)
                 + 5 * (int (length (enemies g4)) - int (length (enemies (projectile_hits g4)))) \<and>
               (\<exists>ds. list_all2 (\<lambda>e d. int d \<le> enemy_hp e) (enemies g4) ds \<and>
                     enemies (projectile_hits g4) =
                       map (\<lambda>(e, d). e\<lparr>enemy_hp := enemy_hp e - int d\<rparr>)
                         (filter (\<lambda>(e, d). int d < enemy_hp e) (zip (enemies g4) ds)) \<and>
                     score (player g') =
                       score (player g)
                       + 5 * int (length (filter (\<lambda>(e, d). \<not> int d < enemy_hp e)
                                            (zip (enemies g4) ds))) \<and>
                     length (explosions (projectile_hits g4))
                       = length (explosions g4) + sum_list ds)) \<and>
         (\<forall>h. projectile_hits h = fold hit_step (projectiles h) (h\<lparr>projectiles := []\<rparr>)) \<and>
         (\<forall>h. (\<forall>e\<in>set (enemies h). 0 < enemy_hp e) \<longrightarrow>
             (\<exists>ds. list_all2 (\<lambda>e d. int d \<le> enemy_hp e) (enemies h) ds \<and>
                   enemies (projectile_hits h) =
                     map (\<lambda>(e, d). e\<lparr>enemy_hp := enemy_hp e - int d\<rparr>)
                       (filter (\<lambda>(e, d). int d < enemy_hp e) (zip (enemies h) ds)) \<and>
                   score (player (projectile_hits h)) =
                     score (player h)
                     + 5 * int (length (filter (\<lambda>(e, d). \<not> int d < enemy_hp e)
                                          (zip (enemies h) ds))) \<and>
                   length (explosions (projectile_hits h))
                     = length (explosions h) + sum_list ds)) \<and>
         (\<forall>proj h. (\<forall>e\<in>set (enemies h). 0 < enemy_hp e) \<longrightarrow>
             (\<forall>e\<in>set (enemies (hit_step proj h)). 0 < enemy_hp e) \<and>
             ((score (player (hit_step proj h)) = score (player h) + 5 \<and>
               (\<exists>i<length (enemies h). enemy_hp (enemies h ! i) = 1 \<and>
                  enemies (hit_step proj h) = kill_at i (enemies h))) \<or>
              (score (player (hit_step proj h)) = score (player h) \<and>
               length (enemies (hit_step proj h)) = length (enemies h)))) \<and>
         (\<forall>h. score (player (bombs_hit_player h)) = score (player h)) \<and>
         (\<forall>h. score (player (enemies_collide_player h)) = score (player h))"
proof -
  from assms(2) obtain g4 where a: "advance inp g = Inr g4" and g': "g' = resolve g4"
    by (auto simp: tick_def split: sum.splits)
  note f = advance_frame(2,4)[OF a]
  have hp4: "\<forall>e\<in>set (enemies g4). 0 < enemy_hp e" using f(2) assms(1) by simp
  let ?p = "projectile_hits g4"
  note p = projectile_hits_frame(4,5,6)[of g4]
  have rs: "resolve g4 = enemies_collide_player (bombs_hit_player ?p)" by (rule resolve_def)
  have sc: "score (player g') = score (player ?p)"
    by (simp add: g' resolve_def enemies_collide_player_frame(1) bombs_hit_player_frame(1))
  have len: "length (enemies ?p) \<le> length (enemies g4)" by (rule p(2))
  have eq: "score (player g') =
              score (player g) + 5 * (int (length (enemies g4)) - int (length (enemies ?p)))"
    using sc p(1) f(1) by simp
  have mono: "score (player g) \<le> score (player g')" using eq len by simp
  have hp': "\<forall>e\<in>set (enemies g'). 0 < enemy_hp e" using tick_hp[OF assms] .
  from projectile_hits_damage[OF hp4] obtain ds where
    ds: "list_all2 (\<lambda>e d. int d \<le> enemy_hp e) (enemies g4) ds"
        "enemies ?p = map (\<lambda>(e, d). e\<lparr>enemy_hp := enemy_hp e - int d\<rparr>)
                         (filter (\<lambda>(e, d). int d < enemy_hp e) (zip (enemies g4) ds))"
        "score (player ?p) = score (player g4)
           + 5 * int (length (filter (\<lambda>(e, d). \<not> int d < enemy_hp e) (zip (enemies g4) ds)))"
        "length (explosions ?p) = length (explosions g4) + sum_list ds"
    by blast
  have dmg: "\<exists>ds. list_all2 (\<lambda>e d. int d \<le> enemy_hp e) (enemies g4) ds \<and>
                     enemies (projectile_hits g4) =
                       map (\<lambda>(e, d). e\<lparr>enemy_hp := enemy_hp e - int d\<rparr>)
                         (filter (\<lambda>(e, d). int d < enemy_hp e) (zip (enemies g4) ds)) \<and>
                     score (player g') =
                       score (player g)
                       + 5 * int (length (filter (\<lambda>(e, d). \<not> int d < enemy_hp e)
                                            (zip (enemies g4) ds))) \<and>
                     length (explosions (projectile_hits g4))
                       = length (explosions g4) + sum_list ds"
    using ds sc f(1) by (intro exI[of _ ds]) simp
  have ex: "\<exists>g4. advance inp g = Inr g4 \<and> g' = resolve g4 \<and>
               resolve g4 = enemies_collide_player (bombs_hit_player (projectile_hits g4)) \<and>
               (\<forall>e\<in>set (enemies g4). 0 < enemy_hp e) \<and>
               score (player g4) = score (player g) \<and>
               length (enemies (projectile_hits g4)) \<le> length (enemies g4) \<and>
               score (player g') =
                 score (player g)
                 + 5 * (int (length (enemies g4)) - int (length (enemies (projectile_hits g4)))) \<and>
               (\<exists>ds. list_all2 (\<lambda>e d. int d \<le> enemy_hp e) (enemies g4) ds \<and>
                     enemies (projectile_hits g4) =
                       map (\<lambda>(e, d). e\<lparr>enemy_hp := enemy_hp e - int d\<rparr>)
                         (filter (\<lambda>(e, d). int d < enemy_hp e) (zip (enemies g4) ds)) \<and>
                     score (player g') =
                       score (player g)
                       + 5 * int (length (filter (\<lambda>(e, d). \<not> int d < enemy_hp e)
                                            (zip (enemies g4) ds))) \<and>
                     length (explosions (projectile_hits g4))
                       = length (explosions g4) + sum_list ds)"
    using a g' rs hp4 f(1) len eq dmg by (intro exI[of _ g4] conjI)
  have fold: "\<forall>h. projectile_hits h = fold hit_step (projectiles h) (h\<lparr>projectiles := []\<rparr>)"
    by (simp add: projectile_hits_def)
  have pass: "\<forall>h. (\<forall>e\<in>set (enemies h). 0 < enemy_hp e) \<longrightarrow>
             (\<exists>ds. list_all2 (\<lambda>e d. int d \<le> enemy_hp e) (enemies h) ds \<and>
                   enemies (projectile_hits h) =
                     map (\<lambda>(e, d). e\<lparr>enemy_hp := enemy_hp e - int d\<rparr>)
                       (filter (\<lambda>(e, d). int d < enemy_hp e) (zip (enemies h) ds)) \<and>
                   score (player (projectile_hits h)) =
                     score (player h)
                     + 5 * int (length (filter (\<lambda>(e, d). \<not> int d < enemy_hp e)
                                          (zip (enemies h) ds))) \<and>
                   length (explosions (projectile_hits h))
                     = length (explosions h) + sum_list ds)"
    using projectile_hits_damage by blast
  have step: "\<forall>proj h. (\<forall>e\<in>set (enemies h). 0 < enemy_hp e) \<longrightarrow>
             (\<forall>e\<in>set (enemies (hit_step proj h)). 0 < enemy_hp e) \<and>
             ((score (player (hit_step proj h)) = score (player h) + 5 \<and>
               (\<exists>i<length (enemies h). enemy_hp (enemies h ! i) = 1 \<and>
                  enemies (hit_step proj h) = kill_at i (enemies h))) \<or>
              (score (player (hit_step proj h)) = score (player h) \<and>
               length (enemies (hit_step proj h)) = length (enemies h)))"
    using hit_step_hp hit_step_crossing by blast
  have bs: "\<forall>h. score (player (bombs_hit_player h)) = score (player h)"
    by (simp add: bombs_hit_player_frame(1))
  have es: "\<forall>h. score (player (enemies_collide_player h)) = score (player h)"
    by (simp add: enemies_collide_player_frame(1))
  from mono hp' ex fold pass step bs es show ?thesis by (intro conjI)
qed

theorem score_per_kill_witness:
  "enemies duel_game = [grunt] \<and> 0 < enemy_hp grunt \<and> score (player duel_game) = 0 \<and>
   (\<exists>g'. tick idle duel_game = Inr g' \<and> score (player g') = 5 \<and> enemies g' = []) \<and>
   enemies grunt_game = [grunt] \<and>
   score (player (hit_step near_shot grunt_game)) = score (player grunt_game) + 5 \<and>
   enemies (hit_step near_shot grunt_game) = [] \<and>
   enemies volley_game = [grunt, gunner] \<and> enemy_hp gunner = 3 \<and>
   score (player volley_game) = 0 \<and>
   projectile_hits volley_game =
     fold hit_step (projectiles volley_game) (volley_game\<lparr>projectiles := []\<rparr>) \<and>
   enemies (projectile_hits volley_game) = [gunner\<lparr>enemy_hp := 2\<rparr>] \<and>
   score (player (projectile_hits volley_game)) = 5"
proof -
  have e: "enemies duel_game = [grunt]" "0 < enemy_hp grunt" "score (player duel_game) = 0"
          "enemies grunt_game = [grunt]" "enemies volley_game = [grunt, gunner]"
          "enemy_hp gunner = 3" "score (player volley_game) = 0"
    by (simp_all add: duel_game_def grunt_game_def volley_game_def grunt_def gunner_def
        init_game_def Player_init_def)
  then have hp: "\<forall>e\<in>set (enemies duel_game). 0 < enemy_hp e"
    and hq: "\<forall>e\<in>set (enemies grunt_game). 0 < enemy_hp e" by simp_all
  from duel_tick obtain g' where
    g': "tick idle duel_game = Inr g'" "score (player g') = 5" "enemies g' = []" by blast
  note t = score_per_kill[OF hp g'(1)]
  from t have m: "score (player duel_game) \<le> score (player g')" by blast
  from t have fo: "projectile_hits volley_game =
     fold hit_step (projectiles volley_game) (volley_game\<lparr>projectiles := []\<rparr>)" by blast
  from t hq have
    "(score (player (hit_step near_shot grunt_game)) = score (player grunt_game) + 5 \<and>
      (\<exists>i<length (enemies grunt_game). enemy_hp (enemies grunt_game ! i) = 1 \<and>
         enemies (hit_step near_shot grunt_game) = kill_at i (enemies grunt_game))) \<or>
     (score (player (hit_step near_shot grunt_game)) = score (player grunt_game) \<and>
      length (enemies (hit_step near_shot grunt_game)) = length (enemies grunt_game))"
    by blast
  moreover have "length (enemies (hit_step near_shot grunt_game)) \<noteq> length (enemies grunt_game)"
    by (simp add: witness_defs init_game_def Player_init_def eval_defs)
  ultimately have
    "score (player (hit_step near_shot grunt_game)) = score (player grunt_game) + 5 \<and>
     enemies (hit_step near_shot grunt_game) = []"
    using e(4) by (auto simp: kill_at_def)
  moreover have "enemies (projectile_hits volley_game) = [gunner\<lparr>enemy_hp := 2\<rparr>]"
                "score (player (projectile_hits volley_game)) = 5"
    by (simp_all add: volley_pass)
  ultimately show ?thesis using e g' m fo by blast
qed

subsection \<open>Lives\<close>

lemma run_36: "run (replicate 36 up_a) init_game = Inr state_36"
  by (simp add: eval_nat_numeral trace_defs init_game_def Player_init_def state_36_def eval_defs)

lemma run_78: "run (replicate 42 up_h) state_36 = Inr state_78"
  by (simp add: eval_nat_numeral trace_defs state_36_def state_78_def eval_defs)

lemma run_95: "run (replicate 17 up_c) state_78 = Inr state_95"
  by (simp add: eval_nat_numeral trace_defs state_78_def state_95_def eval_defs)

lemma run_99: "run (replicate 4 up_c) state_95 = Inr state_99"
  by (simp add: eval_nat_numeral trace_defs state_95_def state_99_def eval_defs)

lemma run_110: "run (replicate 11 up_c) state_99 = Inr state_110"
  by (simp add: eval_nat_numeral trace_defs state_99_def state_110_def eval_defs)

lemma run_111: "run [up_c] state_110 = Inr state_111"
  by (simp add: trace_defs state_110_def state_111_def eval_defs)

lemma split_33:
  "replicate 33 up_c = replicate 17 up_c @ replicate 4 up_c @ replicate 11 up_c @ [up_c]"
proof -
  have "replicate 33 up_c = replicate (17 + (4 + (11 + 1))) up_c" by simp
  also have "\<dots> = replicate 17 up_c @ replicate 4 up_c @ replicate 11 up_c @ replicate 1 up_c"
    by (simp only: replicate_add)
  finally show ?thesis by simp
qed

lemma run_to_99:
  "run (replicate 36 up_a @ replicate 42 up_h @ replicate 17 up_c @ replicate 4 up_c) init_game
     = Inr state_99"
  by (simp only: run_append run_36 run_78 run_95 run_99 sum.case)

lemma run_lethal: "run lethal_trace init_game = Inr state_111"
  unfolding lethal_trace_def split_33
  by (simp only: run_append run_36 run_78 run_95 run_99 run_110 run_111 sum.case)

lemma last_pass:
  "\<exists>g4. advance up_c state_110 = Inr g4 \<and>
        lives (player (projectile_hits g4)) = 1 \<and>
        lives (player (bombs_hit_player (projectile_hits g4))) = 0 \<and>
        \<not> running (bombs_hit_player (projectile_hits g4)) \<and>
        lives (player (enemies_collide_player (bombs_hit_player (projectile_hits g4)))) = - 1"
  by (simp add: trace_defs state_110_def eval_defs)

text \<open>
  C1, as stated, fails: the lives can go below 0. In the play \<open>lethal_trace\<close> the player
  flies up into the enemies. Passes 96 and 99 each cost one life to a Beginner. In pass 109
  the Hard enemy, at \<open>y = 45.7\<close>, fires straight down at the player. The bomb moves twice
  4.5 per pass: after pass 110 its box ends at \<open>y = 59\<close>, above the player's box, which
  starts at 60, and after the update of pass 111 it ends at 68 and overlaps. The Hard
  enemy's box ends at 60 after pass 110 and at 61 in pass 111. So in pass 111 the bomb block
  takes the last life and clears the loop flag, and the enemy block, which runs all the
  same, takes another one (\<open>last_pass\<close>): the loop ends with \<open>-1\<close> lives. The draws of the
  play are in the ranges of their calls.
\<close>

theorem lives_counterexample:
  "valid_draws draws_a \<and> valid_draws draws_h \<and> valid_draws draws_c \<and>
   lives (player init_game) = 3 \<and>
   run lethal_trace init_game = Inr state_111 \<and> lives (player state_111) < 0"
  using run_lethal valid_trace_draws
  by (simp add: state_111_def init_game_def Player_init_def)

text \<open>
  C1, amended. In every state that the loop reaches from the start the lives are at most 3
  and at least \<open>-1\<close>, and they are positive as long as the loop flag is set, so a pass is
  only executed with at least one life. A pass never increases the lives and takes at most
  2 (one for a bomb and one for an enemy), so the lives are non-increasing along the whole
  run. Once the lives are \<open>\<le> 0\<close> the loop flag is cleared; with the flag cleared no further
  pass is executed and the state stays as it is.
\<close>

theorem lives_along_run:
  assumes "run inps init_game = Inr g"
  shows "lives (player init_game) = 3 \<and>
         - 1 \<le> lives (player g) \<and> lives (player g) \<le> 3 \<and>
         (running g \<longrightarrow> 0 < lives (player g)) \<and>
         (lives (player g) \<le> 0 \<longrightarrow> \<not> running g) \<and>
         (\<forall>rest. run (inps @ rest) init_game = run rest g) \<and>
         (\<forall>rest g2. run rest g = Inr g2 \<longrightarrow> lives (player g2) \<le> lives (player g)) \<and>
         (\<forall>inp g2. tick inp g = Inr g2 \<longrightarrow>
             lives (player g) - 2 \<le> lives (player g2) \<and> lives (player g2) \<le> lives (player g)) \<and>
         (\<not> running g \<longrightarrow> (\<forall>rest. run rest g = Inr g))"
proof -
  from run_lives[OF init_lives_inv assms] have inv: "lives_inv g" by simp
  have a: "- 1 \<le> lives (player g)" "lives (player g) \<le> 3" "running g \<longrightarrow> 0 < lives (player g)"
    using inv by (simp_all add: lives_inv_def)
  from a(3) have b: "lives (player g) \<le> 0 \<longrightarrow> \<not> running g" by auto
  have c: "\<forall>rest. run (inps @ rest) init_game = run rest g"
    by (simp add: run_append assms)
  have d: "\<forall>rest g2. run rest g = Inr g2 \<longrightarrow> lives (player g2) \<le> lives (player g)"
    using run_lives[OF inv] by blast
  have e: "\<forall>inp g2. tick inp g = Inr g2 \<longrightarrow>
             lives (player g) - 2 \<le> lives (player g2) \<and> lives (player g2) \<le> lives (player g)"
    using tick_lives(1,2) by blast
  have f: "\<not> running g \<longrightarrow> (\<forall>rest. run rest g = Inr g)"
    using run_stopped by blast
  have i: "lives (player init_game) = 3" by (simp add: init_game_def Player_init_def)
  from i a b c d e f show ?thesis by blast
qed

theorem lives_along_run_witness:
  "run (replicate 36 up_a @ replicate 42 up_h @ replicate 17 up_c @ replicate 4 up_c) init_game
     = Inr state_99 \<and>
   lives (player state_99) = 1 \<and> running state_99 \<and>
   run (replicate 11 up_c @ [up_c]) state_99 = Inr state_111 \<and>
   lives (player state_111) = - 1 \<and> \<not> running state_111 \<and>
   run [idle] state_111 = Inr state_111"
proof -
  note t = lives_along_run[OF run_to_99]
  have r: "run (replicate 11 up_c @ [up_c]) state_99 = Inr state_111"
    by (simp only: run_append run_110 run_111 sum.case)
  have s: "\<not> running state_111" by (simp add: state_111_def)
  note u = lives_along_run[OF run_lethal]
  from u s have "run [idle] state_111 = Inr state_111" by blast
  with t r s run_to_99 show ?thesis by (simp add: state_99_def state_111_def)
qed

end
